theory Spec2Isabelle
  imports Complex_Main "HOL-Library.AList"
begin

section \<open>JavaScript values\<close>

text \<open>
  The connector works on JSON-decoded argument bags and payloads. A number is an IEEE
  double: a finite value (kept here as the rational it denotes; the functions below only
  compare, floor and take minima, which are exact on doubles) or one of the three
  non-finite values. An object is its list of own properties in insertion order, read
  with the first binding of a key.
\<close>

datatype jsnum = Fin rat | NaN | PosInf | NegInf

datatype jsval =
    JUndefined
  | JNull
  | JBool bool
  | JNum jsnum
  | JStr string
  | JArr "jsval list"
  | JObj "(string \<times> jsval) list"

type_synonym jsobj = "(string \<times> jsval) list"

text \<open>ToBoolean: the test of \<open>if (v)\<close>, \<open>!v\<close>, \<open>a && b\<close> and \<open>Boolean(v)\<close>.\<close>

fun truthy :: "jsval \<Rightarrow> bool" where
  "truthy JUndefined = False"
| "truthy JNull = False"
| "truthy (JBool b) = b"
| "truthy (JNum (Fin q)) = (q \<noteq> 0)"
| "truthy (JNum NaN) = False"
| "truthy (JNum PosInf) = True"
| "truthy (JNum NegInf) = True"
| "truthy (JStr s) = (s \<noteq> [])"
| "truthy (JArr xs) = True"
| "truthy (JObj kvs) = True"

text \<open>\<open>v == null\<close>: undefined or null.\<close>

fun nullish :: "jsval \<Rightarrow> bool" where
  "nullish JUndefined = True"
| "nullish JNull = True"
| "nullish v = False"

text \<open>\<open>a ?? b\<close>.\<close>

definition coalesce :: "jsval \<Rightarrow> jsval \<Rightarrow> jsval" where
  "coalesce a b = (if nullish a then b else a)"

text \<open>Property read \<open>o.k\<close> on an object of own properties; a missing key reads undefined.\<close>

definition getProp :: "jsobj \<Rightarrow> string \<Rightarrow> jsval" where
  "getProp kvs k = (case map_of kvs k of None \<Rightarrow> JUndefined | Some v \<Rightarrow> v)"

text \<open>
  \<open>v?.k\<close>, and \<open>v.k\<close> on a value known to be truthy, for the keys the connector
  reads (\<open>id\<close>, \<open>data\<close>, \<open>links\<close>, \<open>next\<close>, \<open>pageCursor\<close>, \<open>message\<close>, \<open>detail\<close>,
  \<open>product\<close>, \<open>component\<close>, \<open>feature\<close>, \<open>startDate\<close>, \<open>endDate\<close>, \<open>start\<close>, \<open>end\<close>,
  \<open>granularity\<close>): undefined and null short-circuit to undefined, and strings, numbers,
  booleans and arrays have no property of these names.
\<close>

fun optprop :: "jsval \<Rightarrow> string \<Rightarrow> jsval" where
  "optprop (JObj kvs) k = getProp kvs k"
| "optprop v k = JUndefined"

text \<open>\<open>toObject\<close>: a non-array object is kept, everything else becomes \<open>{}\<close>.\<close>

fun toObject :: "jsval \<Rightarrow> jsobj" where
  "toObject (JObj kvs) = kvs"
| "toObject v = []"

text \<open>\<open>Array.isArray(v) ? v : []\<close>.\<close>

fun arrayOrEmpty :: "jsval \<Rightarrow> jsval list" where
  "arrayOrEmpty (JArr xs) = xs"
| "arrayOrEmpty v = []"

section \<open>The runtime\<close>

text \<open>
  Library functions of the JavaScript runtime that the connector calls and that are not
  part of the repository. They are parameters of the model:
  \<^item> \<open>rtNumber\<close>: \<open>Number(v)\<close> on a string, an array or an object (ToPrimitive, then
    StringToNumber with rounding to a double);
  \<^item> \<open>rtTrim\<close>: \<open>String.prototype.trim\<close>;
  \<^item> \<open>rtString\<close>: the string conversion of a template literal;
  \<^item> \<open>rtResolveUrl\<close>: \<open>new URL(s, PRODUCTBOARD_BASE_URL).toString()\<close>, None when the
    constructor throws;
  \<^item> \<open>rtEncodeURIComponent\<close>: \<open>encodeURIComponent(v)\<close>, None when it throws.
\<close>

record runtime =
  rtNumber :: "jsval \<Rightarrow> jsnum"
  rtTrim :: "string \<Rightarrow> string"
  rtString :: "jsval \<Rightarrow> string"
  rtResolveUrl :: "string \<Rightarrow> string option"
  rtEncodeURIComponent :: "jsval \<Rightarrow> string option"

text \<open>
  \<open>Number(v)\<close>. On undefined, null, booleans and numbers the conversion is fixed by the
  language; the rest is the runtime's.
\<close>

fun Number_js :: "runtime \<Rightarrow> jsval \<Rightarrow> jsnum" where
  "Number_js rt JUndefined = NaN"
| "Number_js rt JNull = Fin 0"
| "Number_js rt (JBool b) = Fin (if b then 1 else 0)"
| "Number_js rt (JNum n) = n"
| "Number_js rt v = rtNumber rt v"

section \<open>Constants\<close>

definition DEFAULT_LIMIT :: int where
  "DEFAULT_LIMIT = 100"

definition MAX_PAGE_SIZE :: int where
  "MAX_PAGE_SIZE = 100"

section \<open>Errors\<close>

text \<open>
  What a function of the connector can throw: its own \<open>ProductboardApiError\<close> (message,
  status, details, retryAfter; an option that is not given is undefined) or an error of
  the runtime (a \<open>TypeError\<close>, a \<open>URIError\<close>), kept with its message.
\<close>

datatype js_error =
    ProductboardApiError string jsval jsval jsval
  | RuntimeError string

fun err_message :: "js_error \<Rightarrow> string" where
  "err_message (ProductboardApiError m s d r) = m"
| "err_message (RuntimeError m) = m"

fun err_status :: "js_error \<Rightarrow> jsval" where
  "err_status (ProductboardApiError m s d r) = s"
| "err_status (RuntimeError m) = JUndefined"

fun err_details :: "js_error \<Rightarrow> jsval" where
  "err_details (ProductboardApiError m s d r) = d"
| "err_details (RuntimeError m) = JUndefined"

fun err_retryAfter :: "js_error \<Rightarrow> jsval" where
  "err_retryAfter (ProductboardApiError m s d r) = r"
| "err_retryAfter (RuntimeError m) = JUndefined"

text \<open>\<open>new ProductboardApiError(msg, { status: 400 })\<close>.\<close>

definition status400 :: "string \<Rightarrow> js_error" where
  "status400 msg = ProductboardApiError msg (JNum (Fin 400)) JUndefined JUndefined"

section \<open>normalizeLimit\<close>

text \<open>
  \<open>const limit = Number(inputLimit ?? fallback);
  if (!Number.isFinite(limit) || limit <= 0) return fallback;
  return Math.min(Math.floor(limit), 1000);\<close>
  The second parameter is never passed in the repository, so \<open>fallback\<close> is
  \<open>DEFAULT_LIMIT\<close>.
\<close>

definition normalizeLimit :: "runtime \<Rightarrow> jsval \<Rightarrow> int" where
  "normalizeLimit rt inputLimit =
     (case Number_js rt (coalesce inputLimit (JNum (Fin (of_int DEFAULT_LIMIT)))) of
        Fin q \<Rightarrow> (if q \<le> 0 then DEFAULT_LIMIT else min \<lfloor>q\<rfloor> 1000)
      | _ \<Rightarrow> DEFAULT_LIMIT)"

section \<open>Status\<close>

definition normalizeStatusInput :: "jsval \<Rightarrow> js_error + jsval" where
  "normalizeStatusInput rawStatus =
     (case rawStatus of
        JUndefined \<Rightarrow> Inr JUndefined
      | JNull \<Rightarrow> Inr JUndefined
      | JStr s \<Rightarrow> Inr (JObj [(''name'', JStr s)])
      | _ \<Rightarrow>
          (let status = toObject rawStatus;
               sid = getProp status ''id'';
               sname = getProp status ''name''
           in if truthy sid \<and> truthy sname then
                Inl (status400 ''Provide either status.id or status.name, not both.'')
              else if truthy sid \<or> truthy sname then
                Inr (JObj ((if truthy sid then [(''id'', sid)] else []) @
                           (if truthy sname then [(''name'', sname)] else [])))
              else Inr JUndefined))"

definition resolveStatusFromArgs :: "jsval \<Rightarrow> js_error + jsval" where
  "resolveStatusFromArgs rawArgs =
     (let args = toObject rawArgs in
      case normalizeStatusInput (getProp args ''status'') of
        Inl e \<Rightarrow> Inl e
      | Inr inlineStatus \<Rightarrow>
          if truthy inlineStatus \<and>
             (truthy (getProp args ''status_id'') \<or> truthy (getProp args ''status_name'')) then
            Inl (status400
              ''Provide status either as status object/string OR as status_id/status_name fields.'')
          else if truthy (getProp args ''status_id'') \<and> truthy (getProp args ''status_name'') then
            Inl (status400 ''Provide either status_id or status_name, not both.'')
          else if truthy inlineStatus then Inr inlineStatus
          else if truthy (getProp args ''status_id'') then
            Inr (JObj [(''id'', getProp args ''status_id'')])
          else if truthy (getProp args ''status_name'') then
            Inr (JObj [(''name'', getProp args ''status_name'')])
          else Inr JUndefined)"

section \<open>Parent\<close>

text \<open>
  The three resolution chains of \<open>normalizeParentInput\<close>, each
  \<open>explicitParent.K?.id ?? input.K?.id ?? input["K.id"] ?? input.ALIAS\<close>.
\<close>

definition parentChain :: "jsobj \<Rightarrow> string \<Rightarrow> string \<Rightarrow> string \<Rightarrow> jsval" where
  "parentChain input kind dotted alias =
     (let explicitParent = toObject (getProp input ''parent'') in
      coalesce (coalesce (coalesce (optprop (getProp explicitParent kind) ''id'')
                                   (optprop (getProp input kind) ''id''))
                         (getProp input dotted))
               (getProp input alias))"

definition normalizeParentInput :: "jsval \<Rightarrow> bool \<Rightarrow> js_error + jsval" where
  "normalizeParentInput args required =
     (let input = toObject args;
          productId = parentChain input ''product'' ''product.id'' ''product_id'';
          componentId = parentChain input ''component'' ''component.id'' ''component_id'';
          featureId = parentChain input ''feature'' ''feature.id'' ''parent_feature_id'';
          candidates =
            (if truthy productId then [JObj [(''product'', JObj [(''id'', productId)])]] else []) @
            (if truthy componentId then [JObj [(''component'', JObj [(''id'', componentId)])]] else []) @
            (if truthy featureId then [JObj [(''feature'', JObj [(''id'', featureId)])]] else [])
      in if length candidates > 1 then
           Inl (status400 ''Provide only one parent type: product, component, or feature.'')
         else if length candidates = 1 then Inr (hd candidates)
         else if required then
           Inl (status400
             ''Missing feature parent. Provide product.id, component.id, or parent_feature_id.'')
         else Inr JUndefined)"

section \<open>Timeframes\<close>

text \<open>
  \<open>buildTimeframeInput\<close>: \<open>typeof input === "object"\<close> holds for objects and arrays; an
  array has neither \<open>start\<close> nor \<open>end\<close>.
\<close>

definition buildTimeframeInput :: "jsval \<Rightarrow> jsval" where
  "buildTimeframeInput input =
     (case input of
        JObj kvs \<Rightarrow>
          (let v = (if getProp kvs ''start'' \<noteq> JUndefined then [(''start'', getProp kvs ''start'')]
                    else []) @
                   (if getProp kvs ''end'' \<noteq> JUndefined then [(''end'', getProp kvs ''end'')]
                    else [])
           in if length v > 0 then JObj v else JUndefined)
      | _ \<Rightarrow> JUndefined)"

text \<open>\<open>x !== undefined && x !== null && x !== ""\<close>.\<close>

definition hasValue :: "jsval \<Rightarrow> bool" where
  "hasValue x = (x \<noteq> JUndefined \<and> x \<noteq> JNull \<and> x \<noteq> JStr [])"

text \<open>
  The three values \<open>buildDateTimeframeInput\<close> resolves:
  \<open>overrides.startDate ?? value.startDate ?? value.start\<close>,
  \<open>overrides.endDate ?? value.endDate ?? value.end\<close> and
  \<open>overrides.granularity ?? value.granularity\<close>, with \<open>value = toObject(input)\<close>.
\<close>

definition tfStartDate :: "jsval \<Rightarrow> jsobj \<Rightarrow> jsval" where
  "tfStartDate input overrides =
     coalesce (coalesce (getProp overrides ''startDate'') (getProp (toObject input) ''startDate''))
              (getProp (toObject input) ''start'')"

definition tfEndDate :: "jsval \<Rightarrow> jsobj \<Rightarrow> jsval" where
  "tfEndDate input overrides =
     coalesce (coalesce (getProp overrides ''endDate'') (getProp (toObject input) ''endDate''))
              (getProp (toObject input) ''end'')"

definition tfGranularity :: "jsval \<Rightarrow> jsobj \<Rightarrow> jsval" where
  "tfGranularity input overrides =
     coalesce (getProp overrides ''granularity'') (getProp (toObject input) ''granularity'')"

definition buildDateTimeframeInput :: "jsval \<Rightarrow> jsobj \<Rightarrow> js_error + jsval" where
  "buildDateTimeframeInput input overrides =
     (let startDate = tfStartDate input overrides;
          endDate = tfEndDate input overrides;
          granularity = tfGranularity input overrides;
          hasStartDate = hasValue startDate;
          hasEndDate = hasValue endDate;
          hasGranularity = hasValue granularity
      in if \<not> hasStartDate \<and> \<not> hasEndDate \<and> \<not> hasGranularity then Inr JUndefined
         else if hasStartDate \<noteq> hasEndDate then
           Inl (status400 ''Timeframe requires both startDate and endDate when provided.'')
         else Inr (JObj ((if hasStartDate then [(''startDate'', startDate)] else []) @
                         (if hasEndDate then [(''endDate'', endDate)] else []) @
                         (if hasGranularity then [(''granularity'', granularity)] else []))))"

text \<open>
  The call made by the create and update handlers of objectives, key results, initiatives
  and releases:
  \<open>buildDateTimeframeInput(args.timeframe, { startDate: args.start_date ?? args.startDate,
  endDate: args.end_date ?? args.endDate, granularity: args.granularity })\<close>.
\<close>

definition dateTimeframeOfArgs :: "jsobj \<Rightarrow> js_error + jsval" where
  "dateTimeframeOfArgs args =
     buildDateTimeframeInput (getProp args ''timeframe'')
       [(''startDate'', coalesce (getProp args ''start_date'') (getProp args ''startDate'')),
        (''endDate'', coalesce (getProp args ''end_date'') (getProp args ''endDate'')),
        (''granularity'', getProp args ''granularity'')]"

section \<open>The HTTP client adapter\<close>

text \<open>
  \<open>extractErrorMessage(payload, fallbackMessage)\<close>. \<open>typeof payload === "object"\<close> holds
  for objects and arrays; an array has none of the properties read here.
\<close>

fun isString :: "jsval \<Rightarrow> bool" where
  "isString (JStr s) = True"
| "isString v = False"

fun stringOf :: "jsval \<Rightarrow> string" where
  "stringOf (JStr s) = s"
| "stringOf v = []"

definition extractErrorMessage :: "runtime \<Rightarrow> jsval \<Rightarrow> string \<Rightarrow> string" where
  "extractErrorMessage rt payload fallbackMessage =
     (case payload of
        JObj kvs \<Rightarrow>
          (let message = getProp kvs ''message'';
               err = getProp kvs ''error'';
               errors = getProp kvs ''errors''
           in if isString message \<and> rtTrim rt (stringOf message) \<noteq> [] then stringOf message
              else if truthy err \<and> isString (optprop err ''message'') then
                stringOf (optprop err ''message'')
              else
                (case errors of
                   JArr (first # rest) \<Rightarrow>
                     if isString first then stringOf first
                     else if truthy first \<and> isString (optprop first ''message'') then
                       stringOf (optprop first ''message'')
                     else if truthy first \<and> isString (optprop first ''detail'') then
                       stringOf (optprop first ''detail'')
                     else fallbackMessage
                 | _ \<Rightarrow> fallbackMessage))
      | _ \<Rightarrow> fallbackMessage)"

text \<open>
  What \<open>fetch\<close> resolves to, as far as \<open>apiRequest\<close> reads it: the status, the value of
  \<open>headers.get("retry-after")\<close> (None for null), the body text, and \<open>JSON.parse\<close> of the
  body text (None when it throws).
\<close>

record http_response =
  resp_status :: int
  resp_retryAfter :: "string option"
  resp_rawText :: string
  resp_parsed :: "jsval option"

text \<open>\<open>response.ok\<close>: the status is in the range 200 to 299.\<close>

definition resp_ok :: "http_response \<Rightarrow> bool" where
  "resp_ok response = (200 \<le> resp_status response \<and> resp_status response \<le> 299)"

text \<open>\<open>Number.isFinite(v) ? v : undefined\<close>.\<close>

fun finiteOrUndefined :: "jsval \<Rightarrow> jsval" where
  "finiteOrUndefined (JNum (Fin q)) = JNum (Fin q)"
| "finiteOrUndefined v = JUndefined"

definition buildApiError :: "runtime \<Rightarrow> http_response \<Rightarrow> jsval \<Rightarrow> string option \<Rightarrow> js_error" where
  "buildApiError rt response payload fallbackText =
     (let status = resp_status response;
          retryAfter =
            (case resp_retryAfter response of
               Some h \<Rightarrow> if h \<noteq> [] then JNum (Number_js rt (JStr h)) else JUndefined
             | None \<Rightarrow> JUndefined);
          message0 = extractErrorMessage rt payload
            (case fallbackText of
               Some t \<Rightarrow> if t \<noteq> [] then t
                         else ''Productboard API returned HTTP '' @
                              rtString rt (JNum (Fin (of_int status))) @ ''.''
             | None \<Rightarrow> ''Productboard API returned HTTP '' @
                         rtString rt (JNum (Fin (of_int status))) @ ''.'');
          message =
            (if status = 401 then ''Authentication failed. Check your Productboard API token.''
             else if status = 403 then
               ''Access denied by Productboard API. Verify token permissions.''
             else if status = 404 then ''Requested Productboard resource was not found.''
             else if status = 429 then
               ''Productboard API rate limit reached. Please retry shortly.''
             else message0)
      in ProductboardApiError message (JNum (Fin (of_int status)))
           (coalesce payload (case fallbackText of Some t \<Rightarrow> JStr t | None \<Rightarrow> JUndefined))
           (finiteOrUndefined retryAfter))"

text \<open>
  A call of \<open>apiRequest(method, path, { query, body, absoluteUrl })\<close>; an option that is
  not given is None, and \<open>path\<close> is None where the caller passes null.
\<close>

record api_call =
  call_method :: string
  call_path :: "string option"
  call_query :: "jsobj option"
  call_body :: "jsval option"
  call_absoluteUrl :: "string option"

text \<open>
  The network. Given the state of the world and a call, the transport either fails
  before a response exists (no token, a URL the constructor rejects, a failing
  \<open>fetch\<close>) with the error \<open>apiRequest\<close> throws for it, or delivers a response; it
  returns the next state of the world. The state \<open>io\<close> of a run keeps the world and
  the trace of calls made so far, each with what \<open>apiRequest\<close> returned or threw.
\<close>

type_synonym 'w transport = "'w \<Rightarrow> api_call \<Rightarrow> (js_error + http_response) \<times> 'w"

record 'w io =
  world :: 'w
  calls :: "(api_call \<times> (js_error + jsval)) list"

text \<open>
  \<open>apiRequest\<close> after the fetch:
  \<open>payload = rawText ? (try JSON.parse(rawText) catch undefined) : undefined;
  if (!response.ok) throw buildApiError(response, payload, rawText || undefined);
  return payload ?? {};\<close>
\<close>

definition decodeResponse :: "runtime \<Rightarrow> http_response \<Rightarrow> js_error + jsval" where
  "decodeResponse rt response =
     (let rawText = resp_rawText response;
          payload = (if rawText \<noteq> [] then
                       (case resp_parsed response of Some v \<Rightarrow> v | None \<Rightarrow> JUndefined)
                     else JUndefined)
      in if \<not> resp_ok response then
           Inl (buildApiError rt response payload (if rawText \<noteq> [] then Some rawText else None))
         else Inr (coalesce payload (JObj [])))"

definition apiRequest ::
  "runtime \<Rightarrow> 'w transport \<Rightarrow> 'w io \<Rightarrow> api_call \<Rightarrow> (js_error + jsval) \<times> 'w io" where
  "apiRequest rt transport st c =
     (case transport (world st) c of
        (outcome, w) \<Rightarrow>
          (let r = (case outcome of Inl e \<Rightarrow> Inl e | Inr response \<Rightarrow> decodeResponse rt response)
           in (r, \<lparr>world = w, calls = calls st @ [(c, r)]\<rparr>)))"

section \<open>The envelope\<close>

text \<open>The object \<open>asErrorResult\<close> serialises.\<close>

definition errorPayload :: "js_error \<Rightarrow> jsval" where
  "errorPayload error =
     JObj [(''error'',
        JObj ([(''message'', JStr (err_message error))] @
              (if truthy (err_status error) then [(''status'', err_status error)] else []) @
              (if truthy (err_retryAfter error)
               then [(''retry_after_seconds'', err_retryAfter error)] else []) @
              (if truthy (err_details error) then [(''details'', err_details error)] else [])))]"

text \<open>
  A tool result: the flag \<open>isError\<close> and the content blocks. Each block is
  \<open>{ type: "text", text: JSON.stringify(v, null, 2) }\<close> and is kept as the value \<open>v\<close> it
  serialises.
\<close>

datatype content_block = TextOfJson jsval

record tool_result =
  isError :: bool
  content :: "content_block list"

definition asErrorResult :: "js_error \<Rightarrow> tool_result" where
  "asErrorResult error = \<lparr>isError = True, content = [TextOfJson (errorPayload error)]\<rparr>"

section \<open>The pagination walkers\<close>

text \<open>
  The object both walkers return: \<open>items\<close>, \<open>count\<close>, \<open>has_more\<close> and the continuation
  (\<open>next\<close> for \<open>listWithLinks\<close>, \<open>next_cursor\<close> for \<open>listNotes\<close>).
\<close>

record list_result =
  items :: "jsval list"
  count :: nat
  has_more :: bool
  continuation :: jsval

text \<open>
  The loop of \<open>listWithLinks\<close>. The state of the loop is \<open>items\<close>, \<open>nextUrl\<close> (None for
  null) and \<open>firstQuery\<close>. Nothing bounds the number of iterations (a server that keeps
  answering empty pages with a next link keeps the loop running), so the model takes
  fuel, one unit per iteration. The outcome None means that the fuel ran out; the state
  returned with it is the state reached so far.
  \<open>candidateNext.startsWith\<close> throws a TypeError when the truthy \<open>links.next\<close> is not a
  string, and so does the URL constructor on a string it cannot resolve.
\<close>

primrec listWithLinks_loop ::
  "nat \<Rightarrow> runtime \<Rightarrow> 'w transport \<Rightarrow> string \<Rightarrow> int \<Rightarrow> 'w io \<Rightarrow> jsval list \<Rightarrow> string option \<Rightarrow>
   jsobj \<Rightarrow> (js_error + list_result) option \<times> 'w io" where
  "listWithLinks_loop 0 rt transport path maxItems st its nextUrl firstQuery = (None, st)"
| "listWithLinks_loop (Suc fuel) rt transport path maxItems st its nextUrl firstQuery =
     (if int (length its) < maxItems then
        (case apiRequest rt transport st
                (case nextUrl of
                   Some u \<Rightarrow>
                     if u \<noteq> [] then
                       \<lparr>call_method = ''GET'', call_path = None, call_query = None,
                        call_body = None, call_absoluteUrl = Some u\<rparr>
                     else
                       \<lparr>call_method = ''GET'', call_path = Some path,
                        call_query = Some firstQuery, call_body = None, call_absoluteUrl = None\<rparr>
                 | None \<Rightarrow>
                     \<lparr>call_method = ''GET'', call_path = Some path,
                      call_query = Some firstQuery, call_body = None, call_absoluteUrl = None\<rparr>) of
           (Inl e, st') \<Rightarrow> (Some (Inl e), st')
         | (Inr payload, st') \<Rightarrow>
             (let pageItems = arrayOrEmpty (optprop payload ''data'');
                  remaining = maxItems - int (length its);
                  its' = its @ take (nat remaining) pageItems;
                  candidateNext = optprop (optprop payload ''links'') ''next''
              in if \<not> truthy candidateNext \<or> int (length its') \<ge> maxItems then
                   (Some (Inr \<lparr>items = its', count = length its',
                               has_more = (truthy candidateNext \<and> int (length its') \<ge> maxItems),
                               continuation = coalesce candidateNext JNull\<rparr>), st')
                 else
                   (case candidateNext of
                      JStr s \<Rightarrow>
                        if take 4 s = ''http'' then
                          listWithLinks_loop fuel rt transport path maxItems st' its' (Some s) []
                        else
                          (case rtResolveUrl rt s of
                             None \<Rightarrow> (Some (Inl (RuntimeError ''Invalid URL'')), st')
                           | Some u \<Rightarrow>
                               listWithLinks_loop fuel rt transport path maxItems st' its'
                                 (Some u) [])
                    | _ \<Rightarrow>
                        (Some (Inl (RuntimeError ''candidateNext.startsWith is not a function'')),
                         st'))))
      else (Some (Inr \<lparr>items = its, count = length its, has_more = False,
                       continuation = JNull\<rparr>), st))"

text \<open>
  \<open>listWithLinks(path, { query = {}, limit = DEFAULT_LIMIT, pageSizeParam })\<close>;
  \<open>pageSizeParam\<close> is None when it is not given.
\<close>

definition listWithLinks ::
  "nat \<Rightarrow> runtime \<Rightarrow> 'w transport \<Rightarrow> 'w io \<Rightarrow> string \<Rightarrow> jsobj \<Rightarrow> jsval \<Rightarrow> string option \<Rightarrow>
   (js_error + list_result) option \<times> 'w io" where
  "listWithLinks fuel rt transport st path query limit pageSizeParam =
     (let maxItems = normalizeLimit rt
            (if limit = JUndefined then JNum (Fin (of_int DEFAULT_LIMIT)) else limit);
          firstQuery =
            (case pageSizeParam of
               Some p \<Rightarrow>
                 if p \<noteq> [] \<and> nullish (getProp query p) then
                   AList.update p (JNum (Fin (of_int (min MAX_PAGE_SIZE maxItems)))) query
                 else query
             | None \<Rightarrow> query)
      in listWithLinks_loop fuel rt transport path maxItems st [] None firstQuery)"

text \<open>
  The query of one page of notes: \<open>{ ...query, pageLimit }\<close>, then
  \<open>pageQuery.pageCursor = cursor\<close> when the cursor is truthy and
  \<open>delete pageQuery.pageCursor\<close> otherwise.
\<close>

definition notesPageQuery :: "jsobj \<Rightarrow> int \<Rightarrow> jsval \<Rightarrow> jsobj" where
  "notesPageQuery query pageLimit cursor =
     (let pageQuery = AList.update ''pageLimit'' (JNum (Fin (of_int pageLimit))) query
      in if truthy cursor then AList.update ''pageCursor'' cursor pageQuery
         else AList.delete ''pageCursor'' pageQuery)"

text \<open>The loop of \<open>listNotes\<close>, with fuel as above; its state is \<open>items\<close> and \<open>cursor\<close>.\<close>

primrec listNotes_loop ::
  "nat \<Rightarrow> runtime \<Rightarrow> 'w transport \<Rightarrow> jsobj \<Rightarrow> int \<Rightarrow> 'w io \<Rightarrow> jsval list \<Rightarrow> jsval \<Rightarrow>
   (js_error + list_result) option \<times> 'w io" where
  "listNotes_loop 0 rt transport query maxItems st its cursor = (None, st)"
| "listNotes_loop (Suc fuel) rt transport query maxItems st its cursor =
     (if int (length its) < maxItems then
        (let remaining = maxItems - int (length its);
             pageLimit = min MAX_PAGE_SIZE remaining
         in case apiRequest rt transport st
                   \<lparr>call_method = ''GET'', call_path = Some ''/notes'',
                    call_query = Some (notesPageQuery query pageLimit cursor),
                    call_body = None, call_absoluteUrl = None\<rparr> of
              (Inl e, st') \<Rightarrow> (Some (Inl e), st')
            | (Inr payload, st') \<Rightarrow>
                (let pageItems = arrayOrEmpty (optprop payload ''data'');
                     its' = its @ take (nat remaining) pageItems;
                     cursor' = optprop payload ''pageCursor''
                 in if \<not> truthy cursor' \<or> int (length its') \<ge> maxItems then
                      (Some (Inr \<lparr>items = its', count = length its',
                                  has_more = (truthy cursor' \<and> int (length its') \<ge> maxItems),
                                  continuation = coalesce cursor' JNull\<rparr>), st')
                    else listNotes_loop fuel rt transport query maxItems st' its' cursor'))
      else (Some (Inr \<lparr>items = its, count = length its, has_more = False,
                       continuation = JNull\<rparr>), st))"

definition listNotes ::
  "nat \<Rightarrow> runtime \<Rightarrow> 'w transport \<Rightarrow> 'w io \<Rightarrow> jsobj \<Rightarrow> jsval \<Rightarrow>
   (js_error + list_result) option \<times> 'w io" where
  "listNotes fuel rt transport st query limit =
     (let maxItems = normalizeLimit rt
            (if limit = JUndefined then JNum (Fin (of_int DEFAULT_LIMIT)) else limit)
      in listNotes_loop fuel rt transport query maxItems st [] (getProp query ''pageCursor''))"

section \<open>Feature handlers\<close>

text \<open>The object literal \<open>data\<close> of \<open>pbFeatureCreate\<close>, from the values it is built of.\<close>

definition pbFeatureCreate_fields :: "jsobj \<Rightarrow> jsval \<Rightarrow> jsval \<Rightarrow> jsval \<Rightarrow> jsobj" where
  "pbFeatureCreate_fields args status parent timeframe =
     [(''name'', getProp args ''name''),
      (''description'', getProp args ''description''),
      (''type'', coalesce (getProp args ''type'')
         (if truthy (optprop parent ''feature'') then JStr ''subfeature'' else JStr ''feature'')),
      (''status'', status),
      (''parent'', parent)] @
     (if getProp args ''archived'' \<noteq> JUndefined
      then [(''archived'', JBool (truthy (getProp args ''archived'')))] else []) @
     (if truthy (getProp args ''owner_email'')
      then [(''owner'', JObj [(''email'', getProp args ''owner_email'')])] else []) @
     (if truthy timeframe then [(''timeframe'', timeframe)] else [])"

text \<open>
  \<open>pbFeatureCreate\<close> up to the request: the checks, in the order of the source, and the
  body it posts.
\<close>

definition pbFeatureCreate_body :: "jsval \<Rightarrow> js_error + jsval" where
  "pbFeatureCreate_body rawArgs =
     (let args = toObject rawArgs in
      if \<not> truthy (getProp args ''name'') \<or> \<not> truthy (getProp args ''description'') then
        Inl (status400 ''Missing required parameters: name and description.'')
      else
        (case resolveStatusFromArgs (JObj args) of
           Inl e \<Rightarrow> Inl e
         | Inr status \<Rightarrow>
             if \<not> truthy status then
               Inl (status400
                 ''Missing required status. Provide status.name, status.id, status_name, or status_id.'')
             else
               (case normalizeParentInput (JObj args) True of
                  Inl e \<Rightarrow> Inl e
                | Inr parent \<Rightarrow>
                    Inr (JObj [(''data'',
                      JObj (pbFeatureCreate_fields args status parent
                              (buildTimeframeInput (getProp args ''timeframe''))))]))))"

definition pbFeatureCreate ::
  "runtime \<Rightarrow> 'w transport \<Rightarrow> 'w io \<Rightarrow> jsval \<Rightarrow> (js_error + jsval) \<times> 'w io" where
  "pbFeatureCreate rt transport st rawArgs =
     (case pbFeatureCreate_body rawArgs of
        Inl e \<Rightarrow> (Inl e, st)
      | Inr body \<Rightarrow>
          (case apiRequest rt transport st
                  \<lparr>call_method = ''POST'', call_path = Some ''/features'', call_query = None,
                   call_body = Some body, call_absoluteUrl = None\<rparr> of
             (Inl e, st') \<Rightarrow> (Inl e, st')
           | (Inr payload, st') \<Rightarrow> (Inr (coalesce (optprop payload ''data'') JNull), st')))"

text \<open>The object literal \<open>data\<close> of \<open>pbFeatureUpdate\<close>, from the values it is built of.\<close>

definition pbFeatureUpdate_fields :: "jsobj \<Rightarrow> jsval \<Rightarrow> jsval \<Rightarrow> jsval \<Rightarrow> jsobj" where
  "pbFeatureUpdate_fields args status parent timeframe =
     (if getProp args ''name'' \<noteq> JUndefined then [(''name'', getProp args ''name'')] else []) @
     (if getProp args ''description'' \<noteq> JUndefined
      then [(''description'', getProp args ''description'')] else []) @
     (if getProp args ''archived'' \<noteq> JUndefined
      then [(''archived'', JBool (truthy (getProp args ''archived'')))] else []) @
     (if truthy status then [(''status'', status)] else []) @
     (if truthy parent then [(''parent'', parent)] else []) @
     (if getProp args ''owner_email'' \<noteq> JUndefined
      then [(''owner'',
             if truthy (getProp args ''owner_email'')
             then JObj [(''email'', getProp args ''owner_email'')] else JNull)]
      else []) @
     (if truthy timeframe then [(''timeframe'', timeframe)] else [])"

text \<open>
  \<open>pbFeatureUpdate\<close> up to the request: the checks, in the order of the source, and the
  object \<open>data\<close>.
\<close>

definition pbFeatureUpdate_data :: "jsval \<Rightarrow> js_error + jsobj" where
  "pbFeatureUpdate_data rawArgs =
     (let args = toObject rawArgs in
      if \<not> truthy (getProp args ''id'') then Inl (status400 ''Missing required parameter: id'')
      else
        (case resolveStatusFromArgs (JObj args) of
           Inl e \<Rightarrow> Inl e
         | Inr status \<Rightarrow>
             (case normalizeParentInput (JObj args) False of
                Inl e \<Rightarrow> Inl e
              | Inr parent \<Rightarrow>
                  (let data = pbFeatureUpdate_fields args status parent
                                (buildTimeframeInput (getProp args ''timeframe''))
                   in if length data = 0 then Inl (status400 ''No update fields provided.'')
                      else Inr data))))"

definition pbFeatureUpdate ::
  "runtime \<Rightarrow> 'w transport \<Rightarrow> 'w io \<Rightarrow> jsval \<Rightarrow> (js_error + jsval) \<times> 'w io" where
  "pbFeatureUpdate rt transport st rawArgs =
     (case pbFeatureUpdate_data rawArgs of
        Inl e \<Rightarrow> (Inl e, st)
      | Inr data \<Rightarrow>
          (case rtEncodeURIComponent rt (getProp (toObject rawArgs) ''id'') of
             None \<Rightarrow> (Inl (RuntimeError ''URI malformed''), st)
           | Some encoded \<Rightarrow>
               (case apiRequest rt transport st
                       \<lparr>call_method = ''PATCH'', call_path = Some (''/features/'' @ encoded),
                        call_query = None, call_body = Some (JObj [(''data'', JObj data)]),
                        call_absoluteUrl = None\<rparr> of
                  (Inl e, st') \<Rightarrow> (Inl e, st')
                | (Inr payload, st') \<Rightarrow>
                    (Inr (coalesce (optprop payload ''data'') JNull), st'))))"

section \<open>A runtime for concrete inputs\<close>

text \<open>
  A runtime on which the definitions can be evaluated. It agrees with the JavaScript
  runtime on the inputs used below: \<open>Number\<close> of a string of decimal digits, \<open>trim\<close> of
  a string without surrounding white space other than blanks, the template conversion
  of a string, a relative URL that is a path, and \<open>encodeURIComponent\<close> of a string of
  unreserved characters.
\<close>

definition isDigit :: "char \<Rightarrow> bool" where
  "isDigit c = (48 \<le> (of_char c :: nat) \<and> (of_char c :: nat) \<le> 57)"

definition digitsNumber :: "jsval \<Rightarrow> jsnum" where
  "digitsNumber v =
     (case v of
        JStr s \<Rightarrow>
          if list_all isDigit s
          then Fin (of_nat (foldl (\<lambda>n c. 10 * n + (of_char c - 48)) 0 s))
          else NaN
      | _ \<Rightarrow> NaN)"

definition trimBlanks :: "string \<Rightarrow> string" where
  "trimBlanks s =
     rev (dropWhile (\<lambda>c. c = CHR '' '') (rev (dropWhile (\<lambda>c. c = CHR '' '') s)))"

definition demoRuntime :: runtime where
  "demoRuntime =
     \<lparr>rtNumber = digitsNumber,
      rtTrim = trimBlanks,
      rtString = stringOf,
      rtResolveUrl = (\<lambda>s. Some (''https://api.productboard.com'' @ s)),
      rtEncodeURIComponent = (\<lambda>v. Some (stringOf v))\<rparr>"

text \<open>
  An endpoint that answers every call with status 200 and the same page: 100 items and
  a next link. The world counts the calls served.
\<close>

definition demoItem :: jsval where
  "demoItem = JObj [(''id'', JStr ''x'')]"

definition demoPage :: jsval where
  "demoPage =
     JObj [(''data'', JArr (replicate 100 demoItem)),
           (''links'', JObj [(''next'', JStr ''/features?pageOffset=100'')])]"

text \<open>The body texts of the demo answers; \<open>dq\<close> is the double quote.\<close>

definition dq :: string where
  "dq = [CHR 0x22]"

definition demoItemsText :: string where
  "demoItemsText =
     (let item = ''{'' @ dq @ ''id'' @ dq @ '':'' @ dq @ ''x'' @ dq @ ''}''
      in concat (replicate 99 (item @ '','')) @ item)"

definition demoPageText :: string where
  "demoPageText =
     ''{'' @ dq @ ''data'' @ dq @ '':['' @ demoItemsText @ ''],'' @
     dq @ ''links'' @ dq @ '':{'' @ dq @ ''next'' @ dq @ '':'' @
     dq @ ''/features?pageOffset=100'' @ dq @ ''}}''"

definition demoTransport :: "nat transport" where
  "demoTransport w c =
     (Inr \<lparr>resp_status = 200, resp_retryAfter = None, resp_rawText = demoPageText,
           resp_parsed = Some demoPage\<rparr>, Suc w)"

definition io0 :: "nat io" where
  "io0 = \<lparr>world = 0, calls = []\<rparr>"

text \<open>
  A notes endpoint that answers every call with 100 items and a cursor; the cursor of
  the \<open>n\<close>-th answer is \<open>n\<close> letters long.
\<close>

definition demoNotesPage :: "nat \<Rightarrow> jsval" where
  "demoNotesPage w =
     JObj [(''data'', JArr (replicate 100 demoItem)),
           (''pageCursor'', JStr (replicate (Suc w) CHR ''c''))]"

definition demoNotesText :: "nat \<Rightarrow> string" where
  "demoNotesText w =
     ''{'' @ dq @ ''data'' @ dq @ '':['' @ demoItemsText @ ''],'' @
     dq @ ''pageCursor'' @ dq @ '':'' @ dq @ replicate (Suc w) CHR ''c'' @ dq @ ''}''"

definition demoNotesTransport :: "nat transport" where
  "demoNotesTransport w c =
     (Inr \<lparr>resp_status = 200, resp_retryAfter = None, resp_rawText = demoNotesText w,
           resp_parsed = Some (demoNotesPage w)\<rparr>, Suc w)"

text \<open>An endpoint that answers every call with an empty page and a next link.\<close>

definition stallingPage :: jsval where
  "stallingPage = JObj [(''data'', JArr []), (''links'', JObj [(''next'', JStr ''/features'')])]"

definition stallingTransport :: "nat transport" where
  "stallingTransport w c =
     (Inr \<lparr>resp_status = 200, resp_retryAfter = None,
           resp_rawText = ''{'' @ dq @ ''data'' @ dq @ '':[],'' @ dq @ ''links'' @ dq @ '':{'' @
             dq @ ''next'' @ dq @ '':'' @ dq @ ''/features'' @ dq @ ''}}'',
           resp_parsed = Some stallingPage\<rparr>, Suc w)"

section \<open>Vocabulary of the properties\<close>

text \<open>A validation error: a thrown \<open>ProductboardApiError\<close> whose status is 400.\<close>

fun isValidationError :: "js_error + 'a \<Rightarrow> bool" where
  "isValidationError (Inl (ProductboardApiError m s d r)) = (s = JNum (Fin 400))"
| "isValidationError (Inl (RuntimeError m)) = False"
| "isValidationError (Inr v) = False"

text \<open>
  A status is supplied inline when \<open>status\<close> is a string, or an object that carries an
  \<open>id\<close> or a \<open>name\<close>; a field carries a value when the value is not empty (it is truthy).
\<close>

fun inlineSupplied :: "jsval \<Rightarrow> bool" where
  "inlineSupplied (JStr s) = True"
| "inlineSupplied (JObj kvs) = (truthy (getProp kvs ''id'') \<or> truthy (getProp kvs ''name''))"
| "inlineSupplied v = False"

text \<open>
  Read off an entry of the trace: the items of the page it delivered, its next link and
  its cursor (no items and undefined for a call that threw).
\<close>

definition pageItemsOf :: "api_call \<times> (js_error + jsval) \<Rightarrow> jsval list" where
  "pageItemsOf ev =
     (case snd ev of Inr payload \<Rightarrow> arrayOrEmpty (optprop payload ''data'') | Inl e \<Rightarrow> [])"

definition nextLinkOf :: "api_call \<times> (js_error + jsval) \<Rightarrow> jsval" where
  "nextLinkOf ev =
     (case snd ev of
        Inr payload \<Rightarrow> optprop (optprop payload ''links'') ''next''
      | Inl e \<Rightarrow> JUndefined)"

definition cursorOf :: "api_call \<times> (js_error + jsval) \<Rightarrow> jsval" where
  "cursorOf ev = (case snd ev of Inr payload \<Rightarrow> optprop payload ''pageCursor'' | Inl e \<Rightarrow> JUndefined)"

text \<open>
  The call \<open>listNotes\<close> makes for a page when it holds the items \<open>its\<close> and the cursor
  \<open>cursor\<close>.
\<close>

definition notesCall :: "jsobj \<Rightarrow> int \<Rightarrow> jsval list \<Rightarrow> jsval \<Rightarrow> api_call" where
  "notesCall query maxItems its cursor =
     \<lparr>call_method = ''GET'', call_path = Some ''/notes'',
      call_query =
        Some (notesPageQuery query (min MAX_PAGE_SIZE (maxItems - int (length its))) cursor),
      call_body = None, call_absoluteUrl = None\<rparr>"

text \<open>
  A server is productive when every page that carries a continuation token (a next link,
  a cursor) carries at least one item.
\<close>

definition productiveLinks :: "runtime \<Rightarrow> 'w transport \<Rightarrow> bool" where
  "productiveLinks rt tr =
     (\<forall>st c payload st'. apiRequest rt tr st c = (Inr payload, st') \<longrightarrow>
        truthy (optprop (optprop payload ''links'') ''next'') \<longrightarrow>
        arrayOrEmpty (optprop payload ''data'') \<noteq> [])"

definition productiveNotes :: "runtime \<Rightarrow> 'w transport \<Rightarrow> bool" where
  "productiveNotes rt tr =
     (\<forall>st c payload st'. apiRequest rt tr st c = (Inr payload, st') \<longrightarrow>
        truthy (optprop payload ''pageCursor'') \<longrightarrow>
        arrayOrEmpty (optprop payload ''data'') \<noteq> [])"

text \<open>
  An endpoint that returns \<open>k\<close> items per page and always supplies a next link (a string
  that is an absolute URL or that the URL constructor resolves).
\<close>

definition alwaysPage :: "runtime \<Rightarrow> 'w transport \<Rightarrow> nat \<Rightarrow> bool" where
  "alwaysPage rt tr k =
     (\<forall>st c. \<exists>payload st' s.
        apiRequest rt tr st c = (Inr payload, st') \<and>
        length (arrayOrEmpty (optprop payload ''data'')) = k \<and>
        optprop (optprop payload ''links'') ''next'' = JStr s \<and> s \<noteq> [] \<and>
        (take 4 s = ''http'' \<or> rtResolveUrl rt s \<noteq> None))"


text \<open>
  The value given by a list of spellings of one field, in their order of precedence: the
  first that is neither undefined nor null, and undefined when there is none.
\<close>

fun firstGiven :: "jsval list \<Rightarrow> jsval" where
  "firstGiven [] = JUndefined"
| "firstGiven (x # xs) = (if nullish x then firstGiven xs else x)"

text \<open>
  The spellings of a parent kind \<open>K\<close> in an argument bag, in the order of precedence:
  \<open>parent.K.id\<close>, the nested \<open>K.id\<close>, the dotted key \<open>"K.id"\<close> and the flat alias; and the
  value each of the three kinds is given by them.
\<close>

definition parentSpellings :: "jsobj \<Rightarrow> string \<Rightarrow> string \<Rightarrow> string \<Rightarrow> jsval list" where
  "parentSpellings input kind dotted alias =
     [optprop (optprop (getProp input ''parent'') kind) ''id'',
      optprop (getProp input kind) ''id'',
      getProp input dotted,
      getProp input alias]"

definition givenProduct :: "jsobj \<Rightarrow> jsval" where
  "givenProduct input = firstGiven (parentSpellings input ''product'' ''product.id'' ''product_id'')"

definition givenComponent :: "jsobj \<Rightarrow> jsval" where
  "givenComponent input =
     firstGiven (parentSpellings input ''component'' ''component.id'' ''component_id'')"

definition givenFeature :: "jsobj \<Rightarrow> jsval" where
  "givenFeature input =
     firstGiven (parentSpellings input ''feature'' ''feature.id'' ''parent_feature_id'')"

text \<open>A value is present when it is not undefined, null or the empty string.\<close>

definition present :: "jsval \<Rightarrow> bool" where
  "present x = (\<not> nullish x \<and> x \<noteq> JStr [])"

text \<open>
  The spellings of the three fields of a date-range timeframe, in the order of precedence.
  For \<open>buildDateTimeframeInput(input, overrides)\<close>: the override, then the field of the
  nested object, then (for the dates) its \<open>start\<close> or \<open>end\<close>.
\<close>

definition resolvedStartDate :: "jsval \<Rightarrow> jsobj \<Rightarrow> jsval" where
  "resolvedStartDate input overrides =
     firstGiven [getProp overrides ''startDate'', optprop input ''startDate'',
                 optprop input ''start'']"

definition resolvedEndDate :: "jsval \<Rightarrow> jsobj \<Rightarrow> jsval" where
  "resolvedEndDate input overrides =
     firstGiven [getProp overrides ''endDate'', optprop input ''endDate'', optprop input ''end'']"

definition resolvedGranularity :: "jsval \<Rightarrow> jsobj \<Rightarrow> jsval" where
  "resolvedGranularity input overrides =
     firstGiven [getProp overrides ''granularity'', optprop input ''granularity'']"

text \<open>
  For an argument bag of the handlers: the flat alias \<open>start_date\<close> (\<open>end_date\<close>), then
  \<open>startDate\<close> (\<open>endDate\<close>), then \<open>timeframe.startDate\<close> (\<open>timeframe.endDate\<close>), then
  \<open>timeframe.start\<close> (\<open>timeframe.end\<close>); for the granularity, \<open>granularity\<close> and then
  \<open>timeframe.granularity\<close>.
\<close>

definition givenStartDate :: "jsobj \<Rightarrow> jsval" where
  "givenStartDate args =
     firstGiven [getProp args ''start_date'', getProp args ''startDate'',
                 optprop (getProp args ''timeframe'') ''startDate'',
                 optprop (getProp args ''timeframe'') ''start'']"

definition givenEndDate :: "jsobj \<Rightarrow> jsval" where
  "givenEndDate args =
     firstGiven [getProp args ''end_date'', getProp args ''endDate'',
                 optprop (getProp args ''timeframe'') ''endDate'',
                 optprop (getProp args ''timeframe'') ''end'']"

definition givenGranularity :: "jsobj \<Rightarrow> jsval" where
  "givenGranularity args =
     firstGiven [getProp args ''granularity'',
                 optprop (getProp args ''timeframe'') ''granularity'']"

section \<open>Reading properties\<close>

lemma getProp_Nil [simp]: "getProp [] k = JUndefined"
  by (simp add: getProp_def)

lemma getProp_Cons [simp]: "getProp ((k', v) # kvs) k = (if k = k' then v else getProp kvs k)"
  by (simp add: getProp_def)

section \<open>Properties of normalizeLimit\<close>

lemma normalizeLimit_number:
  "normalizeLimit rt (JNum (Fin q)) = (if q \<le> 0 then 100 else min \<lfloor>q\<rfloor> 1000)"
  by (simp add: normalizeLimit_def coalesce_def DEFAULT_LIMIT_def)

lemma normalizeLimit_range: "0 \<le> normalizeLimit rt v \<and> normalizeLimit rt v \<le> 1000"
  by (auto simp: normalizeLimit_def DEFAULT_LIMIT_def split: jsnum.splits)

lemma normalizeLimit_integer:
  assumes "1 \<le> n" "n \<le> 1000"
  shows "normalizeLimit rt (JNum (Fin (of_int n))) = n"
  using assms by (simp add: normalizeLimit_number)

lemma normalizeLimit_fallback:
  "normalizeLimit rt JUndefined = 100" "normalizeLimit rt JNull = 100"
  "normalizeLimit rt (JNum NaN) = 100" "normalizeLimit rt (JNum PosInf) = 100"
  "normalizeLimit rt (JNum NegInf) = 100"
  "q \<le> 0 \<Longrightarrow> normalizeLimit rt (JNum (Fin q)) = 100"
  by (simp_all add: normalizeLimit_def coalesce_def DEFAULT_LIMIT_def)

lemma normalizeLimit_from_one:
  assumes "1 \<le> q"
  shows "normalizeLimit rt (JNum (Fin q)) = min \<lfloor>q\<rfloor> 1000"
    and "1 \<le> normalizeLimit rt (JNum (Fin q))"
    and "normalizeLimit rt (JNum (Fin q)) \<le> 1000"
proof -
  from assms have "0 < q" by simp
  then show e: "normalizeLimit rt (JNum (Fin q)) = min \<lfloor>q\<rfloor> 1000"
    by (simp add: normalizeLimit_number)
  from assms have "1 \<le> \<lfloor>q\<rfloor>" by (simp add: le_floor_iff)
  then show "1 \<le> normalizeLimit rt (JNum (Fin q))" "normalizeLimit rt (JNum (Fin q)) \<le> 1000"
    unfolding e by simp_all
qed

lemma normalizeLimit_below_one:
  assumes "0 < q" and "q < 1"
  shows "normalizeLimit rt (JNum (Fin q)) = 0"
proof -
  from assms have "\<lfloor>q\<rfloor> = 0" by (simp add: floor_eq_iff)
  with assms show ?thesis by (simp add: normalizeLimit_number)
qed

text \<open>
  Every handler normalizes \<open>args.limit\<close> and passes the result to a walker, which
  normalizes it again; the second pass turns a 0 into the default.
\<close>

lemma normalizeLimit_twice:
  "1 \<le> normalizeLimit rt (JNum (Fin (of_int (normalizeLimit rt v))))"
  "normalizeLimit rt (JNum (Fin (of_int (normalizeLimit rt v)))) \<le> 1000"
  using normalizeLimit_range [of rt v]
  by (simp_all add: normalizeLimit_number)

text \<open>
  C3. The effective limit is meant to lie in [1, 1000]. At the input 0.5 the test
  \<open>limit <= 0\<close> does not fire, the floor is 0, and normalizeLimit returns 0.
\<close>

theorem normalizeLimit_half: "normalizeLimit rt (JNum (Fin (1 / 2))) = 0"
  by (simp add: normalizeLimit_number floor_eq_iff)

section \<open>Status resolution\<close>

text \<open>
  C5. Status resolution raises a validation error (status 400) when a status is supplied
  inline (a string, or an object carrying an id or a name) together with a non-empty
  \<open>status_id\<close> or \<open>status_name\<close>, when \<open>status_id\<close> and \<open>status_name\<close> are both
  supplied, and when the status object carries both an id and a name. With nothing else
  supplied, \<open>status_name\<close> alone becomes \<open>{name}\<close>, \<open>status_id\<close> alone becomes \<open>{id}\<close>
  and a bare string \<open>s\<close> becomes \<open>{name: s}\<close>.
\<close>

theorem resolveStatusFromArgs_contract:
  "(inlineSupplied (getProp args ''status'') \<and>
      (truthy (getProp args ''status_id'') \<or> truthy (getProp args ''status_name''))
      \<longrightarrow> isValidationError (resolveStatusFromArgs (JObj args)))
   \<and> (truthy (getProp args ''status_id'') \<and> truthy (getProp args ''status_name'')
      \<longrightarrow> isValidationError (resolveStatusFromArgs (JObj args)))
   \<and> ((\<exists>kvs. getProp args ''status'' = JObj kvs \<and>
             truthy (getProp kvs ''id'') \<and> truthy (getProp kvs ''name''))
      \<longrightarrow> isValidationError (resolveStatusFromArgs (JObj args)))
   \<and> (\<not> inlineSupplied (getProp args ''status'') \<and>
      \<not> truthy (getProp args ''status_id'') \<and> truthy (getProp args ''status_name'')
      \<longrightarrow> resolveStatusFromArgs (JObj args) =
            Inr (JObj [(''name'', getProp args ''status_name'')]))
   \<and> (\<not> inlineSupplied (getProp args ''status'') \<and>
      truthy (getProp args ''status_id'') \<and> \<not> truthy (getProp args ''status_name'')
      \<longrightarrow> resolveStatusFromArgs (JObj args) =
            Inr (JObj [(''id'', getProp args ''status_id'')]))
   \<and> (\<forall>s. getProp args ''status'' = JStr s \<and>
           \<not> truthy (getProp args ''status_id'') \<and> \<not> truthy (getProp args ''status_name'')
      \<longrightarrow> resolveStatusFromArgs (JObj args) = Inr (JObj [(''name'', JStr s)]))"
  by (cases "getProp args ''status''")
     (auto simp: resolveStatusFromArgs_def normalizeStatusInput_def status400_def Let_def)

theorem resolveStatusFromArgs_contract_witness:
  "isValidationError (resolveStatusFromArgs
      (JObj [(''status'', JStr ''Open''), (''status_id'', JStr ''s1'')]))
   \<and> isValidationError (resolveStatusFromArgs
      (JObj [(''status_id'', JStr ''s1''), (''status_name'', JStr ''Done'')]))
   \<and> isValidationError (resolveStatusFromArgs
      (JObj [(''status'', JObj [(''id'', JStr ''s1''), (''name'', JStr ''Done'')])]))
   \<and> resolveStatusFromArgs (JObj [(''status_name'', JStr ''Done'')]) =
       Inr (JObj [(''name'', JStr ''Done'')])
   \<and> resolveStatusFromArgs (JObj [(''status_id'', JStr ''s1'')]) =
       Inr (JObj [(''id'', JStr ''s1'')])
   \<and> resolveStatusFromArgs (JObj [(''status'', JStr ''Done'')]) =
       Inr (JObj [(''name'', JStr ''Done'')])"
  using
    resolveStatusFromArgs_contract [of "[(''status'', JStr ''Open''), (''status_id'', JStr ''s1'')]"]
    resolveStatusFromArgs_contract [of "[(''status_id'', JStr ''s1''), (''status_name'', JStr ''Done'')]"]
    resolveStatusFromArgs_contract
      [of "[(''status'', JObj [(''id'', JStr ''s1''), (''name'', JStr ''Done'')])]"]
    resolveStatusFromArgs_contract [of "[(''status_name'', JStr ''Done'')]"]
    resolveStatusFromArgs_contract [of "[(''status_id'', JStr ''s1'')]"]
    resolveStatusFromArgs_contract [of "[(''status'', JStr ''Done'')]"]
  by simp

section \<open>Parent normalization\<close>

text \<open>
  Each kind resolves to the first of its four spellings that is neither undefined nor
  null: \<open>parent.K.id\<close>, \<open>K.id\<close> (nested), the dotted key and the flat alias.
\<close>

lemma parentChain_spellings:
  "parentChain input kind dotted alias =
     (let a = optprop (getProp (toObject (getProp input ''parent'')) kind) ''id'';
          b = optprop (getProp input kind) ''id'';
          c = getProp input dotted;
          d = getProp input alias
      in if \<not> nullish a then a else if \<not> nullish b then b
         else if \<not> nullish c then c else d)"
  by (simp add: parentChain_def coalesce_def Let_def)

lemma getProp_toObject: "getProp (toObject v) k = optprop v k"
  by (cases v) simp_all

lemma truthy_not_nullish: "truthy v \<Longrightarrow> \<not> nullish v"
  by (cases v) simp_all

lemma parentChain_truthy:
  "truthy (parentChain input kind dotted alias) =
     truthy (firstGiven (parentSpellings input kind dotted alias))"
  by (auto simp add: parentChain_def parentSpellings_def coalesce_def getProp_toObject Let_def
      dest: truthy_not_nullish)

lemma parentChain_value:
  "truthy (parentChain input kind dotted alias) \<Longrightarrow>
   parentChain input kind dotted alias = firstGiven (parentSpellings input kind dotted alias)"
  by (auto simp add: parentChain_def parentSpellings_def coalesce_def getProp_toObject Let_def
      dest: truthy_not_nullish)

text \<open>The result of \<open>normalizeParentInput\<close>, by the values its three chains yield.\<close>

lemma normalizeParentInput_by_chain:
  "normalizeParentInput (JObj input) required =
     (let p = parentChain input ''product'' ''product.id'' ''product_id'';
          c = parentChain input ''component'' ''component.id'' ''component_id'';
          f = parentChain input ''feature'' ''feature.id'' ''parent_feature_id''
      in if (truthy p \<and> truthy c) \<or> (truthy p \<and> truthy f) \<or> (truthy c \<and> truthy f) then
           Inl (status400 ''Provide only one parent type: product, component, or feature.'')
         else if truthy p then Inr (JObj [(''product'', JObj [(''id'', p)])])
         else if truthy c then Inr (JObj [(''component'', JObj [(''id'', c)])])
         else if truthy f then Inr (JObj [(''feature'', JObj [(''id'', f)])])
         else if required then
           Inl (status400
             ''Missing feature parent. Provide product.id, component.id, or parent_feature_id.'')
         else Inr JUndefined)"
  by (simp add: normalizeParentInput_def Let_def)

lemma choose_parent_cong:
  assumes "truthy p = truthy p'" "truthy p \<Longrightarrow> p = p'"
    and "truthy c = truthy c'" "truthy c \<Longrightarrow> c = c'"
    and "truthy f = truthy f'" "truthy f \<Longrightarrow> f = f'"
  shows "(if (truthy p \<and> truthy c) \<or> (truthy p \<and> truthy f) \<or> (truthy c \<and> truthy f) then A
          else if truthy p then Inr (JObj [(''product'', JObj [(''id'', p)])])
          else if truthy c then Inr (JObj [(''component'', JObj [(''id'', c)])])
          else if truthy f then Inr (JObj [(''feature'', JObj [(''id'', f)])])
          else D) =
         (if (truthy p' \<and> truthy c') \<or> (truthy p' \<and> truthy f') \<or> (truthy c' \<and> truthy f') then A
          else if truthy p' then Inr (JObj [(''product'', JObj [(''id'', p')])])
          else if truthy c' then Inr (JObj [(''component'', JObj [(''id'', c')])])
          else if truthy f' then Inr (JObj [(''feature'', JObj [(''id'', f')])])
          else D)"
proof -
  have P: "truthy p' \<Longrightarrow> p = p'" and C: "truthy c' \<Longrightarrow> c = c'"
    and F: "truthy f' \<Longrightarrow> f = f'"
    using assms by blast+
  show ?thesis
    unfolding assms(1,3,5) by (simp add: P C F cong: if_cong)
qed

text \<open>
  The result of \<open>normalizeParentInput\<close>, by the spellings of the argument bag: an error
  when two kinds are given a non-empty value, the one kind that is given one otherwise,
  and without any an error or undefined.
\<close>

lemma normalizeParentInput_by_spellings:
  "normalizeParentInput (JObj input) required =
     (let p = givenProduct input; c = givenComponent input; f = givenFeature input
      in if (truthy p \<and> truthy c) \<or> (truthy p \<and> truthy f) \<or> (truthy c \<and> truthy f) then
           Inl (status400 ''Provide only one parent type: product, component, or feature.'')
         else if truthy p then Inr (JObj [(''product'', JObj [(''id'', p)])])
         else if truthy c then Inr (JObj [(''component'', JObj [(''id'', c)])])
         else if truthy f then Inr (JObj [(''feature'', JObj [(''id'', f)])])
         else if required then
           Inl (status400
             ''Missing feature parent. Provide product.id, component.id, or parent_feature_id.'')
         else Inr JUndefined)"
  unfolding normalizeParentInput_by_chain givenProduct_def givenComponent_def givenFeature_def
    Let_def
  by (rule choose_parent_cong)
    (rule parentChain_truthy parentChain_value, assumption?)+

text \<open>
  C6, the claim as stated. A kind that carries a value in one of its spellings need not
  resolve: with \<open>{product: {id: ""}, product_id: "p1", component_id: "c1"}\<close> the flat
  aliases of two kinds carry a value, yet the empty nested \<open>product.id\<close> is taken before
  \<open>product_id\<close>, only the component resolves, and the result is
  \<open>{component: {id: "c1"}}\<close> without an error.
\<close>

theorem normalizeParentInput_shadowed_counterexample:
  "truthy (getProp [(''product'', JObj [(''id'', JStr [])]), (''product_id'', JStr ''p1''),
                    (''component_id'', JStr ''c1'')] ''product_id'')
   \<and> truthy (getProp [(''product'', JObj [(''id'', JStr [])]), (''product_id'', JStr ''p1''),
                      (''component_id'', JStr ''c1'')] ''component_id'')
   \<and> normalizeParentInput
        (JObj [(''product'', JObj [(''id'', JStr [])]), (''product_id'', JStr ''p1''),
               (''component_id'', JStr ''c1'')]) False =
       Inr (JObj [(''component'', JObj [(''id'', JStr ''c1'')])])
   \<and> \<not> isValidationError (normalizeParentInput
        (JObj [(''product'', JObj [(''id'', JStr [])]), (''product_id'', JStr ''p1''),
               (''component_id'', JStr ''c1'')]) False)"
  by (simp add: normalizeParentInput_def parentChain_def coalesce_def Let_def)

text \<open>
  C6, amended. Each of the three parent kinds (product, component, feature) is given the
  first of its spellings, in the order \<open>parent.K.id\<close>, nested \<open>K.id\<close>, dotted key, flat
  alias, that is neither undefined nor null, and resolves when that value is not empty.
  When more than one kind resolves, parent normalization raises a validation error; when
  none resolves it raises a validation error if the operation requires a parent and returns
  undefined otherwise; when only the feature resolves the result is \<open>{feature: {id}}\<close>, as
  for \<open>parent_feature_id: "f1"\<close> alone.
\<close>

theorem normalizeParentInput_contract:
  "((truthy (givenProduct input) \<and> truthy (givenComponent input)) \<or>
    (truthy (givenProduct input) \<and> truthy (givenFeature input)) \<or>
    (truthy (givenComponent input) \<and> truthy (givenFeature input))
    \<longrightarrow> isValidationError (normalizeParentInput (JObj input) required))
   \<and> (\<not> truthy (givenProduct input) \<and> \<not> truthy (givenComponent input) \<and>
      \<not> truthy (givenFeature input)
    \<longrightarrow> (if required then isValidationError (normalizeParentInput (JObj input) required)
         else normalizeParentInput (JObj input) required = Inr JUndefined))
   \<and> (\<not> truthy (givenProduct input) \<and> \<not> truthy (givenComponent input) \<and>
      truthy (givenFeature input)
    \<longrightarrow> normalizeParentInput (JObj input) required =
          Inr (JObj [(''feature'', JObj [(''id'', givenFeature input)])]))"
  by (simp add: normalizeParentInput_by_spellings status400_def Let_def)

theorem normalizeParentInput_contract_witness:
  "isValidationError (normalizeParentInput
      (JObj [(''product_id'', JStr ''p1''), (''component_id'', JStr ''c1'')]) False)
   \<and> isValidationError (normalizeParentInput
      (JObj [(''product'', JObj [(''id'', JStr ''p1'')]), (''feature.id'', JStr ''f1'')]) False)
   \<and> isValidationError (normalizeParentInput
      (JObj [(''parent'', JObj [(''component'', JObj [(''id'', JStr ''c1'')])]),
             (''parent_feature_id'', JStr ''f1'')]) False)
   \<and> isValidationError (normalizeParentInput (JObj [(''name'', JStr ''n'')]) True)
   \<and> normalizeParentInput (JObj [(''name'', JStr ''n'')]) False = Inr JUndefined
   \<and> normalizeParentInput (JObj [(''parent_feature_id'', JStr ''f1'')]) False =
       Inr (JObj [(''feature'', JObj [(''id'', JStr ''f1'')])])
   \<and> normalizeParentInput (JObj [(''feature'', JObj [(''id'', JStr ''f2'')])]) True =
       Inr (JObj [(''feature'', JObj [(''id'', JStr ''f2'')])])
   \<and> normalizeParentInput
        (JObj [(''product'', JObj [(''id'', JStr [])]), (''product_id'', JStr ''p1''),
               (''parent_feature_id'', JStr ''f1'')]) False =
       Inr (JObj [(''feature'', JObj [(''id'', JStr ''f1'')])])"
  using
    normalizeParentInput_contract
      [of "[(''product_id'', JStr ''p1''), (''component_id'', JStr ''c1'')]" False]
    normalizeParentInput_contract
      [of "[(''product'', JObj [(''id'', JStr ''p1'')]), (''feature.id'', JStr ''f1'')]" False]
    normalizeParentInput_contract
      [of "[(''parent'', JObj [(''component'', JObj [(''id'', JStr ''c1'')])]),
            (''parent_feature_id'', JStr ''f1'')]" False]
    normalizeParentInput_contract [of "[(''name'', JStr ''n'')]" True]
    normalizeParentInput_contract [of "[(''name'', JStr ''n'')]" False]
    normalizeParentInput_contract [of "[(''parent_feature_id'', JStr ''f1'')]" False]
    normalizeParentInput_contract [of "[(''feature'', JObj [(''id'', JStr ''f2'')])]" True]
    normalizeParentInput_contract
      [of "[(''product'', JObj [(''id'', JStr [])]), (''product_id'', JStr ''p1''),
            (''parent_feature_id'', JStr ''f1'')]" False]
  by (simp add: givenProduct_def givenComponent_def givenFeature_def parentSpellings_def)

section \<open>Date-range timeframes\<close>

text \<open>
  The three values \<open>buildDateTimeframeInput\<close> resolves are those the spellings give:
  they are present together, and equal when present.
\<close>

lemma hasValue_present: "hasValue v = present v"
  by (cases v) (simp_all add: hasValue_def present_def)

lemma present_not_nullish: "present v \<Longrightarrow> \<not> nullish v"
  by (simp add: present_def)

lemma tfStartDate_present:
  "hasValue (tfStartDate input ov) = present (resolvedStartDate input ov)"
  by (auto simp add: tfStartDate_def resolvedStartDate_def coalesce_def getProp_toObject
      hasValue_present present_def)

lemma tfEndDate_present:
  "hasValue (tfEndDate input ov) = present (resolvedEndDate input ov)"
  by (auto simp add: tfEndDate_def resolvedEndDate_def coalesce_def getProp_toObject
      hasValue_present present_def)

lemma tfGranularity_present:
  "hasValue (tfGranularity input ov) = present (resolvedGranularity input ov)"
  by (auto simp add: tfGranularity_def resolvedGranularity_def coalesce_def getProp_toObject
      hasValue_present present_def)

lemma tfStartDate_value:
  "present (resolvedStartDate input ov) \<Longrightarrow> tfStartDate input ov = resolvedStartDate input ov"
  by (auto simp add: tfStartDate_def resolvedStartDate_def coalesce_def getProp_toObject
      present_def split: if_splits)

lemma tfEndDate_value:
  "present (resolvedEndDate input ov) \<Longrightarrow> tfEndDate input ov = resolvedEndDate input ov"
  by (auto simp add: tfEndDate_def resolvedEndDate_def coalesce_def getProp_toObject
      present_def split: if_splits)

lemma tfGranularity_value:
  "present (resolvedGranularity input ov) \<Longrightarrow>
   tfGranularity input ov = resolvedGranularity input ov"
  by (auto simp add: tfGranularity_def resolvedGranularity_def coalesce_def getProp_toObject
      present_def split: if_splits)

text \<open>
  The result of \<open>buildDateTimeframeInput\<close>, by the spellings of its input and overrides,
  and the result of the call the handlers make, by the spellings of the argument bag.
\<close>

lemma buildDateTimeframeInput_by_resolution:
  "buildDateTimeframeInput input ov =
     (let s = resolvedStartDate input ov; e = resolvedEndDate input ov;
          g = resolvedGranularity input ov
      in if \<not> present s \<and> \<not> present e \<and> \<not> present g then Inr JUndefined
         else if present s \<noteq> present e then
           Inl (status400 ''Timeframe requires both startDate and endDate when provided.'')
         else Inr (JObj ((if present s then [(''startDate'', s)] else []) @
                         (if present e then [(''endDate'', e)] else []) @
                         (if present g then [(''granularity'', g)] else []))))"
  unfolding buildDateTimeframeInput_def Let_def
    tfStartDate_present tfEndDate_present tfGranularity_present
  by (simp add: tfStartDate_value tfEndDate_value tfGranularity_value cong: if_cong)

lemma firstGiven_coalesce:
  "firstGiven (coalesce a b # xs) = firstGiven (a # b # xs)"
  by (simp add: coalesce_def)

lemma dateTimeframeOfArgs_resolved:
  "resolvedStartDate (getProp args ''timeframe'')
     [(''startDate'', coalesce (getProp args ''start_date'') (getProp args ''startDate'')),
      (''endDate'', coalesce (getProp args ''end_date'') (getProp args ''endDate'')),
      (''granularity'', getProp args ''granularity'')] = givenStartDate args"
  "resolvedEndDate (getProp args ''timeframe'')
     [(''startDate'', coalesce (getProp args ''start_date'') (getProp args ''startDate'')),
      (''endDate'', coalesce (getProp args ''end_date'') (getProp args ''endDate'')),
      (''granularity'', getProp args ''granularity'')] = givenEndDate args"
  "resolvedGranularity (getProp args ''timeframe'')
     [(''startDate'', coalesce (getProp args ''start_date'') (getProp args ''startDate'')),
      (''endDate'', coalesce (getProp args ''end_date'') (getProp args ''endDate'')),
      (''granularity'', getProp args ''granularity'')] = givenGranularity args"
  by (simp_all add: resolvedStartDate_def resolvedEndDate_def resolvedGranularity_def
      givenStartDate_def givenEndDate_def givenGranularity_def coalesce_def)

lemma dateTimeframeOfArgs_by_spellings:
  "dateTimeframeOfArgs args =
     (let s = givenStartDate args; e = givenEndDate args; g = givenGranularity args
      in if \<not> present s \<and> \<not> present e \<and> \<not> present g then Inr JUndefined
         else if present s \<noteq> present e then
           Inl (status400 ''Timeframe requires both startDate and endDate when provided.'')
         else Inr (JObj ((if present s then [(''startDate'', s)] else []) @
                         (if present e then [(''endDate'', e)] else []) @
                         (if present g then [(''granularity'', g)] else []))))"
  unfolding dateTimeframeOfArgs_def buildDateTimeframeInput_by_resolution
    dateTimeframeOfArgs_resolved
  by (rule refl)

text \<open>
  C7, the claim as stated. A date that the nested object carries need not be present: with
  \<open>{start_date: "", timeframe: {startDate: "2024-01-01"}}\<close> the nested object has a start
  date and nothing has an end date, yet the empty alias is taken before the nested value
  and the result is undefined, without an error. In the same way
  \<open>{granularity: "", timeframe: {granularity: "month"}}\<close> carries a granularity alone and
  gives undefined, not \<open>{granularity: "month"}\<close>.
\<close>

theorem dateTimeframe_shadowed_counterexample:
  "optprop (getProp [(''start_date'', JStr []),
                     (''timeframe'', JObj [(''startDate'', JStr ''2024-01-01'')])] ''timeframe'')
     ''startDate'' = JStr ''2024-01-01''
   \<and> getProp [(''start_date'', JStr []),
               (''timeframe'', JObj [(''startDate'', JStr ''2024-01-01'')])] ''end_date'' =
       JUndefined
   \<and> getProp [(''start_date'', JStr []),
               (''timeframe'', JObj [(''startDate'', JStr ''2024-01-01'')])] ''endDate'' =
       JUndefined
   \<and> optprop (getProp [(''start_date'', JStr []),
                       (''timeframe'', JObj [(''startDate'', JStr ''2024-01-01'')])] ''timeframe'')
       ''endDate'' = JUndefined
   \<and> optprop (getProp [(''start_date'', JStr []),
                       (''timeframe'', JObj [(''startDate'', JStr ''2024-01-01'')])] ''timeframe'')
       ''end'' = JUndefined
   \<and> dateTimeframeOfArgs [(''start_date'', JStr []),
                          (''timeframe'', JObj [(''startDate'', JStr ''2024-01-01'')])] =
       Inr JUndefined
   \<and> \<not> isValidationError
         (dateTimeframeOfArgs [(''start_date'', JStr []),
                               (''timeframe'', JObj [(''startDate'', JStr ''2024-01-01'')])])
   \<and> optprop (getProp [(''granularity'', JStr []),
                       (''timeframe'', JObj [(''granularity'', JStr ''month'')])] ''timeframe'')
       ''granularity'' = JStr ''month''
   \<and> dateTimeframeOfArgs [(''granularity'', JStr []),
                          (''timeframe'', JObj [(''granularity'', JStr ''month'')])] =
       Inr JUndefined"
  by (simp add: dateTimeframeOfArgs_def buildDateTimeframeInput_def tfStartDate_def
      tfEndDate_def tfGranularity_def hasValue_def coalesce_def Let_def)

text \<open>
  C7, amended. startDate, endDate and granularity are each given by the first of their
  spellings that is neither undefined nor null (the flat alias before the nested timeframe
  object), and a value is present when it is not the empty string. If exactly one of
  startDate and endDate is present a validation error is raised; granularity alone is
  accepted and gives \<open>{granularity}\<close>; when none of the three is present the result is
  undefined, so the timeframe is omitted. This holds of \<open>buildDateTimeframeInput\<close> for
  every input and overrides, and of the call the handlers make for every argument bag.
\<close>

theorem buildDateTimeframeInput_contract:
  "(present (resolvedStartDate input ov) \<noteq> present (resolvedEndDate input ov)
      \<longrightarrow> isValidationError (buildDateTimeframeInput input ov))
   \<and> (\<not> present (resolvedStartDate input ov) \<and> \<not> present (resolvedEndDate input ov) \<and>
      present (resolvedGranularity input ov)
      \<longrightarrow> buildDateTimeframeInput input ov =
            Inr (JObj [(''granularity'', resolvedGranularity input ov)]))
   \<and> (\<not> present (resolvedStartDate input ov) \<and> \<not> present (resolvedEndDate input ov) \<and>
      \<not> present (resolvedGranularity input ov)
      \<longrightarrow> buildDateTimeframeInput input ov = Inr JUndefined)
   \<and> (present (givenStartDate args) \<noteq> present (givenEndDate args)
      \<longrightarrow> isValidationError (dateTimeframeOfArgs args))
   \<and> (\<not> present (givenStartDate args) \<and> \<not> present (givenEndDate args) \<and>
      present (givenGranularity args)
      \<longrightarrow> dateTimeframeOfArgs args = Inr (JObj [(''granularity'', givenGranularity args)]))
   \<and> (\<not> present (givenStartDate args) \<and> \<not> present (givenEndDate args) \<and>
      \<not> present (givenGranularity args)
      \<longrightarrow> dateTimeframeOfArgs args = Inr JUndefined)"
  by (auto simp add: buildDateTimeframeInput_by_resolution dateTimeframeOfArgs_by_spellings
      status400_def Let_def)

theorem buildDateTimeframeInput_contract_witness:
  "isValidationError (dateTimeframeOfArgs [(''start_date'', JStr ''2024-01-01'')])
   \<and> isValidationError
       (dateTimeframeOfArgs [(''timeframe'', JObj [(''endDate'', JStr ''2024-12-31'')])])
   \<and> isValidationError
       (dateTimeframeOfArgs [(''timeframe'', JObj [(''start'', JStr ''2024-01-01'')])])
   \<and> isValidationError
       (buildDateTimeframeInput (JObj [(''end'', JStr ''2024-12-31'')]) [])
   \<and> dateTimeframeOfArgs [(''granularity'', JStr ''month'')] =
       Inr (JObj [(''granularity'', JStr ''month'')])
   \<and> dateTimeframeOfArgs [(''timeframe'', JObj [(''granularity'', JStr ''quarter'')])] =
       Inr (JObj [(''granularity'', JStr ''quarter'')])
   \<and> buildDateTimeframeInput JUndefined [(''granularity'', JStr ''year'')] =
       Inr (JObj [(''granularity'', JStr ''year'')])
   \<and> dateTimeframeOfArgs [(''name'', JStr ''n'')] = Inr JUndefined
   \<and> dateTimeframeOfArgs [(''start_date'', JStr []),
                          (''timeframe'', JObj [(''startDate'', JStr ''2024-01-01'')])] =
       Inr JUndefined"
  using
    buildDateTimeframeInput_contract
      [of "JObj [(''end'', JStr ''2024-12-31'')]" "[]" "[(''start_date'', JStr ''2024-01-01'')]"]
    buildDateTimeframeInput_contract
      [of JUndefined "[(''granularity'', JStr ''year'')]"
          "[(''timeframe'', JObj [(''endDate'', JStr ''2024-12-31'')])]"]
    buildDateTimeframeInput_contract
      [of JUndefined "[]" "[(''timeframe'', JObj [(''start'', JStr ''2024-01-01'')])]"]
    buildDateTimeframeInput_contract
      [of JUndefined "[]" "[(''granularity'', JStr ''month'')]"]
    buildDateTimeframeInput_contract
      [of JUndefined "[]" "[(''timeframe'', JObj [(''granularity'', JStr ''quarter'')])]"]
    buildDateTimeframeInput_contract
      [of JUndefined "[]" "[(''name'', JStr ''n'')]"]
    buildDateTimeframeInput_contract
      [of JUndefined "[]"
          "[(''start_date'', JStr []),
            (''timeframe'', JObj [(''startDate'', JStr ''2024-01-01'')])]"]
  by (simp add: resolvedStartDate_def resolvedEndDate_def resolvedGranularity_def
      givenStartDate_def givenEndDate_def givenGranularity_def present_def)

section \<open>Errors of the remote API\<close>

lemma buildApiError_429_message:
  "resp_status response = 429 \<Longrightarrow>
   err_message (buildApiError rt response payload fallbackText) =
     ''Productboard API rate limit reached. Please retry shortly.''"
  by (simp add: buildApiError_def Let_def)

lemma buildApiError_status:
  "err_status (buildApiError rt response payload fallbackText) =
     JNum (Fin (of_int (resp_status response)))"
  by (simp add: buildApiError_def Let_def)

lemma buildApiError_retryAfter_finite:
  "resp_retryAfter response = Some h \<Longrightarrow> h \<noteq> [] \<Longrightarrow> rtNumber rt (JStr h) = Fin q \<Longrightarrow>
   err_retryAfter (buildApiError rt response payload fallbackText) = JNum (Fin q)"
  by (simp add: buildApiError_def Let_def)

lemma errorPayload_message:
  "optprop (optprop (errorPayload e) ''error'') ''message'' = JStr (err_message e)"
  by (simp add: errorPayload_def)

text \<open>A retry delay that is not zero reaches the envelope.\<close>

lemma errorPayload_retry_after_seconds:
  "err_retryAfter e = JNum (Fin q) \<Longrightarrow> q \<noteq> 0 \<Longrightarrow>
   optprop (optprop (errorPayload e) ''error'') ''retry_after_seconds'' = JNum (Fin q)"
  by (simp add: errorPayload_def)

lemma retry_after_three_surfaced:
  "optprop (optprop (errorPayload (buildApiError demoRuntime
      \<lparr>resp_status = 429, resp_retryAfter = Some ''3'', resp_rawText = [], resp_parsed = None\<rparr>
      JUndefined None)) ''error'') ''retry_after_seconds'' = JNum (Fin 3)"
  by (simp add: buildApiError_def errorPayload_def demoRuntime_def digitsNumber_def isDigit_def
      Let_def coalesce_def)

text \<open>
  C9. A retry-after header that parses as a finite number is to be attached to the error
  and surfaced as \<open>retry_after_seconds\<close>. For the header \<open>retry-after: 0\<close> on a 429
  response, \<open>buildApiError\<close> attaches the delay 0 to the error, and \<open>asErrorResult\<close>,
  which tests the delay for truthiness, leaves \<open>retry_after_seconds\<close> out of the envelope.
\<close>

theorem retry_after_zero_not_surfaced:
  "err_message (buildApiError demoRuntime
      \<lparr>resp_status = 429, resp_retryAfter = Some ''0'', resp_rawText = [], resp_parsed = None\<rparr>
      JUndefined None) = ''Productboard API rate limit reached. Please retry shortly.''
   \<and> err_retryAfter (buildApiError demoRuntime
      \<lparr>resp_status = 429, resp_retryAfter = Some ''0'', resp_rawText = [], resp_parsed = None\<rparr>
      JUndefined None) = JNum (Fin 0)
   \<and> content (asErrorResult (buildApiError demoRuntime
      \<lparr>resp_status = 429, resp_retryAfter = Some ''0'', resp_rawText = [], resp_parsed = None\<rparr>
      JUndefined None)) =
       [TextOfJson (JObj [(''error'', JObj
          [(''message'', JStr ''Productboard API rate limit reached. Please retry shortly.''),
           (''status'', JNum (Fin 429))])])]"
  by (simp add: buildApiError_def errorPayload_def asErrorResult_def demoRuntime_def
      digitsNumber_def isDigit_def Let_def coalesce_def)

section \<open>Feature update and create\<close>

lemma pbFeatureUpdate_data_Inr:
  assumes "pbFeatureUpdate_data rawArgs = Inr data"
  obtains status parent where
    "truthy (getProp (toObject rawArgs) ''id'')"
    "resolveStatusFromArgs (JObj (toObject rawArgs)) = Inr status"
    "normalizeParentInput (JObj (toObject rawArgs)) False = Inr parent"
    "data = pbFeatureUpdate_fields (toObject rawArgs) status parent
              (buildTimeframeInput (getProp (toObject rawArgs) ''timeframe''))"
    "data \<noteq> []"
  using assms unfolding pbFeatureUpdate_data_def Let_def
  by (auto split: if_split_asm sum.splits)


text \<open>A failed check ends the handler before any request; otherwise one request carries the body.\<close>

lemma pbFeatureUpdate_no_request:
  "pbFeatureUpdate_data rawArgs = Inl e \<Longrightarrow> pbFeatureUpdate rt transport st rawArgs = (Inl e, st)"
  by (simp add: pbFeatureUpdate_def)

lemma pbFeatureUpdate_request:
  assumes "pbFeatureUpdate_data rawArgs = Inr data"
    and "rtEncodeURIComponent rt (getProp (toObject rawArgs) ''id'') = Some encoded"
  shows "\<exists>outcome. calls (snd (pbFeatureUpdate rt transport st rawArgs)) =
           calls st @
           [(\<lparr>call_method = ''PATCH'', call_path = Some (''/features/'' @ encoded),
              call_query = None, call_body = Some (JObj [(''data'', JObj data)]),
              call_absoluteUrl = None\<rparr>, outcome)]"
  using assms
  by (auto simp: pbFeatureUpdate_def apiRequest_def Let_def split: prod.splits sum.splits)

lemma pbFeatureCreate_no_request:
  "pbFeatureCreate_body rawArgs = Inl e \<Longrightarrow> pbFeatureCreate rt transport st rawArgs = (Inl e, st)"
  by (simp add: pbFeatureCreate_def)

lemma pbFeatureCreate_request:
  assumes "pbFeatureCreate_body rawArgs = Inr body"
  shows "\<exists>outcome. calls (snd (pbFeatureCreate rt transport st rawArgs)) =
           calls st @
           [(\<lparr>call_method = ''POST'', call_path = Some ''/features'', call_query = None,
              call_body = Some body, call_absoluteUrl = None\<rparr>, outcome)]"
  using assms
  by (auto simp: pbFeatureCreate_def apiRequest_def Let_def split: prod.splits sum.splits)

lemma key_in_optional:
  "k \<in> fst ` set (if c then [(a, b)] else []) \<longleftrightarrow> c \<and> k = a"
  by (cases c) simp_all

lemma update_fields_keys:
  "k \<in> fst ` set (pbFeatureUpdate_fields args status parent timeframe) \<longleftrightarrow>
     (getProp args ''name'' \<noteq> JUndefined \<and> k = ''name'') \<or>
     (getProp args ''description'' \<noteq> JUndefined \<and> k = ''description'') \<or>
     (getProp args ''archived'' \<noteq> JUndefined \<and> k = ''archived'') \<or>
     (truthy status \<and> k = ''status'') \<or>
     (truthy parent \<and> k = ''parent'') \<or>
     (getProp args ''owner_email'' \<noteq> JUndefined \<and> k = ''owner'') \<or>
     (truthy timeframe \<and> k = ''timeframe'')"
  unfolding pbFeatureUpdate_fields_def set_append image_Un Un_iff key_in_optional
  by (rule refl)

lemma update_fields_owner:
  "getProp args ''owner_email'' \<noteq> JUndefined \<Longrightarrow>
   getProp (pbFeatureUpdate_fields args status parent timeframe) ''owner'' =
     (if truthy (getProp args ''owner_email'')
      then JObj [(''email'', getProp args ''owner_email'')] else JNull)"
  by (simp add: pbFeatureUpdate_fields_def)

lemma update_fields_empty:
  "pbFeatureUpdate_fields args status parent timeframe = [] \<longleftrightarrow>
     getProp args ''name'' = JUndefined \<and> getProp args ''description'' = JUndefined \<and>
     getProp args ''archived'' = JUndefined \<and> \<not> truthy status \<and> \<not> truthy parent \<and>
     getProp args ''owner_email'' = JUndefined \<and> \<not> truthy timeframe"
  by (simp add: pbFeatureUpdate_fields_def)








text \<open>
  C8, the claim as stated. Key presence does not decide every field of the update: with
  \<open>{id: "f1", status_name: ""}\<close> the key \<open>status_name\<close> is explicitly provided, yet no
  status enters the body and the update fails with "No update fields provided.".
\<close>

theorem pbFeatureUpdate_presence_counterexample:
  "getProp [(''id'', JStr ''f1''), (''status_name'', JStr [])] ''status_name'' \<noteq> JUndefined \<and>
   pbFeatureUpdate_data (JObj [(''id'', JStr ''f1''), (''status_name'', JStr [])]) =
     Inl (status400 ''No update fields provided.'')"
  by (simp add: pbFeatureUpdate_data_def pbFeatureUpdate_fields_def resolveStatusFromArgs_def
      normalizeStatusInput_def normalizeParentInput_def parentChain_def coalesce_def
      buildTimeframeInput_def Let_def)

text \<open>
  C8, amended. The body of pb_feature_update has \<open>name\<close>, \<open>description\<close>, \<open>archived\<close> and
  \<open>owner\<close> exactly when the argument key (\<open>owner_email\<close> for \<open>owner\<close>) is present, whatever
  its value, and \<open>status\<close>, \<open>parent\<close> and \<open>timeframe\<close> exactly when they resolve to a
  value. An \<open>owner_email\<close> that is present but empty gives \<open>owner: null\<close>; an absent one
  leaves \<open>owner\<close> out. The one request of the handler carries this body. When no
  field results, the handler fails with "No update fields provided." and the state of
  the run, with its trace of requests, is unchanged.
\<close>

theorem pbFeatureUpdate_contract:
  "(\<forall>data. pbFeatureUpdate_data (JObj args) = Inr data \<longrightarrow>
      (''name'' \<in> fst ` set data \<longleftrightarrow> getProp args ''name'' \<noteq> JUndefined) \<and>
      (''description'' \<in> fst ` set data \<longleftrightarrow> getProp args ''description'' \<noteq> JUndefined) \<and>
      (''archived'' \<in> fst ` set data \<longleftrightarrow> getProp args ''archived'' \<noteq> JUndefined) \<and>
      (''owner'' \<in> fst ` set data \<longleftrightarrow> getProp args ''owner_email'' \<noteq> JUndefined) \<and>
      (''status'' \<in> fst ` set data \<longleftrightarrow>
         (\<exists>s. resolveStatusFromArgs (JObj args) = Inr s \<and> truthy s)) \<and>
      (''parent'' \<in> fst ` set data \<longleftrightarrow>
         (\<exists>p. normalizeParentInput (JObj args) False = Inr p \<and> truthy p)) \<and>
      (''timeframe'' \<in> fst ` set data \<longleftrightarrow>
         truthy (buildTimeframeInput (getProp args ''timeframe''))) \<and>
      (getProp args ''owner_email'' \<noteq> JUndefined \<and> \<not> truthy (getProp args ''owner_email'')
         \<longrightarrow> getProp data ''owner'' = JNull))
   \<and> (\<forall>data encoded. pbFeatureUpdate_data (JObj args) = Inr data \<and>
        rtEncodeURIComponent rt (getProp args ''id'') = Some encoded \<longrightarrow>
        (\<exists>outcome. calls (snd (pbFeatureUpdate rt transport st (JObj args))) =
           calls st @
           [(\<lparr>call_method = ''PATCH'', call_path = Some (''/features/'' @ encoded),
              call_query = None, call_body = Some (JObj [(''data'', JObj data)]),
              call_absoluteUrl = None\<rparr>, outcome)]))
   \<and> (truthy (getProp args ''id'') \<and>
      getProp args ''name'' = JUndefined \<and> getProp args ''description'' = JUndefined \<and>
      getProp args ''archived'' = JUndefined \<and> getProp args ''owner_email'' = JUndefined \<and>
      (\<exists>s. resolveStatusFromArgs (JObj args) = Inr s \<and> \<not> truthy s) \<and>
      (\<exists>p. normalizeParentInput (JObj args) False = Inr p \<and> \<not> truthy p) \<and>
      \<not> truthy (buildTimeframeInput (getProp args ''timeframe''))
      \<longrightarrow> pbFeatureUpdate rt transport st (JObj args) =
            (Inl (status400 ''No update fields provided.''), st))"
proof (intro conjI allI impI)
  fix data
  assume d: "pbFeatureUpdate_data (JObj args) = Inr data"
  from d obtain status parent where
    s: "resolveStatusFromArgs (JObj args) = Inr status"
    and p: "normalizeParentInput (JObj args) False = Inr parent"
    and data: "data = pbFeatureUpdate_fields args status parent
                 (buildTimeframeInput (getProp args ''timeframe''))"
    by (rule pbFeatureUpdate_data_Inr) simp
  show "''name'' \<in> fst ` set data \<longleftrightarrow> getProp args ''name'' \<noteq> JUndefined"
    unfolding data by (simp add: update_fields_keys)
  show "''description'' \<in> fst ` set data \<longleftrightarrow> getProp args ''description'' \<noteq> JUndefined"
    unfolding data by (simp add: update_fields_keys)
  show "''archived'' \<in> fst ` set data \<longleftrightarrow> getProp args ''archived'' \<noteq> JUndefined"
    unfolding data by (simp add: update_fields_keys)
  show "''owner'' \<in> fst ` set data \<longleftrightarrow> getProp args ''owner_email'' \<noteq> JUndefined"
    unfolding data by (simp add: update_fields_keys)
  show "''status'' \<in> fst ` set data \<longleftrightarrow>
          (\<exists>s. resolveStatusFromArgs (JObj args) = Inr s \<and> truthy s)"
    unfolding data by (simp add: update_fields_keys s)
  show "''parent'' \<in> fst ` set data \<longleftrightarrow>
          (\<exists>p. normalizeParentInput (JObj args) False = Inr p \<and> truthy p)"
    unfolding data by (simp add: update_fields_keys p)
  show "''timeframe'' \<in> fst ` set data \<longleftrightarrow>
          truthy (buildTimeframeInput (getProp args ''timeframe''))"
    unfolding data by (simp add: update_fields_keys)
  show "getProp data ''owner'' = JNull"
    if "getProp args ''owner_email'' \<noteq> JUndefined \<and> \<not> truthy (getProp args ''owner_email'')"
    using that unfolding data by (simp add: update_fields_owner)
next
  fix data encoded
  assume "pbFeatureUpdate_data (JObj args) = Inr data \<and>
          rtEncodeURIComponent rt (getProp args ''id'') = Some encoded"
  then show "\<exists>outcome. calls (snd (pbFeatureUpdate rt transport st (JObj args))) =
           calls st @
           [(\<lparr>call_method = ''PATCH'', call_path = Some (''/features/'' @ encoded),
              call_query = None, call_body = Some (JObj [(''data'', JObj data)]),
              call_absoluteUrl = None\<rparr>, outcome)]"
    using pbFeatureUpdate_request [of "JObj args" data rt encoded transport st] by simp
next
  assume a: "truthy (getProp args ''id'') \<and>
      getProp args ''name'' = JUndefined \<and> getProp args ''description'' = JUndefined \<and>
      getProp args ''archived'' = JUndefined \<and> getProp args ''owner_email'' = JUndefined \<and>
      (\<exists>s. resolveStatusFromArgs (JObj args) = Inr s \<and> \<not> truthy s) \<and>
      (\<exists>p. normalizeParentInput (JObj args) False = Inr p \<and> \<not> truthy p) \<and>
      \<not> truthy (buildTimeframeInput (getProp args ''timeframe''))"
  then obtain s p where s: "resolveStatusFromArgs (JObj args) = Inr s" "\<not> truthy s"
    and p: "normalizeParentInput (JObj args) False = Inr p" "\<not> truthy p"
    by blast
  have "pbFeatureUpdate_fields args s p (buildTimeframeInput (getProp args ''timeframe'')) = []"
    using a s p by (simp add: update_fields_empty)
  then have "pbFeatureUpdate_data (JObj args) = Inl (status400 ''No update fields provided.'')"
    using a s p by (simp add: pbFeatureUpdate_data_def)
  then show "pbFeatureUpdate rt transport st (JObj args) =
            (Inl (status400 ''No update fields provided.''), st)"
    by (rule pbFeatureUpdate_no_request)
qed

theorem pbFeatureUpdate_contract_witness:
  "pbFeatureUpdate_data (JObj [(''id'', JStr ''f1''), (''owner_email'', JStr [])]) =
     Inr [(''owner'', JNull)]
   \<and> getProp [(''owner'', JNull)] ''owner'' = JNull
   \<and> pbFeatureUpdate_data (JObj [(''id'', JStr ''f1''), (''name'', JStr ''New'')]) =
     Inr [(''name'', JStr ''New'')]
   \<and> ''owner'' \<notin> fst ` set [(''name'', JStr ''New'')]
   \<and> (\<exists>outcome.
        calls (snd (pbFeatureUpdate demoRuntime demoTransport io0
                      (JObj [(''id'', JStr ''f1''), (''owner_email'', JStr [])]))) =
        [(\<lparr>call_method = ''PATCH'', call_path = Some ''/features/f1'', call_query = None,
           call_body = Some (JObj [(''data'', JObj [(''owner'', JNull)])]),
           call_absoluteUrl = None\<rparr>, outcome)])
   \<and> pbFeatureUpdate demoRuntime demoTransport io0 (JObj [(''id'', JStr ''f1'')]) =
     (Inl (status400 ''No update fields provided.''), io0)"
  using
    pbFeatureUpdate_contract
      [of "[(''id'', JStr ''f1''), (''owner_email'', JStr [])]" demoRuntime demoTransport io0]
    pbFeatureUpdate_contract
      [of "[(''id'', JStr ''f1''), (''name'', JStr ''New'')]" demoRuntime demoTransport io0]
    pbFeatureUpdate_contract [of "[(''id'', JStr ''f1'')]" demoRuntime demoTransport io0]
  by (simp add: pbFeatureUpdate_data_def pbFeatureUpdate_fields_def resolveStatusFromArgs_def
      normalizeStatusInput_def normalizeParentInput_def parentChain_def coalesce_def
      buildTimeframeInput_def Let_def demoRuntime_def io0_def)



section \<open>The walkers: what a run does\<close>

text \<open>Every call of \<open>apiRequest\<close> adds one entry to the trace.\<close>

lemma apiRequest_calls:
  "apiRequest rt tr st c = (r, st') \<Longrightarrow> calls st' = calls st @ [(c, r)]"
  by (auto simp: apiRequest_def Let_def split: prod.splits)

lemma take_whole:
  assumes "int (length (its @ take (nat (N - int (length its))) page)) < N"
  shows "take (nat (N - int (length its))) page = page"
  using assms by (auto simp: min_def split: if_splits)

lemma listWithLinks_loop_step:
  assumes "listWithLinks_loop (Suc fuel) rt tr path N st its nextUrl fq = (res, st')"
    and "int (length its) < N"
  obtains (thrown) c out e where
      "apiRequest rt tr st c = (out, st')" "res = Some (Inl e)"
  | (stop) c payload where
      "apiRequest rt tr st c = (Inr payload, st')"
      "res = Some (Inr
          \<lparr>items = its @ take (nat (N - int (length its))) (arrayOrEmpty (optprop payload ''data'')),
           count = length (its @ take (nat (N - int (length its)))
                                  (arrayOrEmpty (optprop payload ''data''))),
           has_more = (truthy (optprop (optprop payload ''links'') ''next'') \<and>
              N \<le> int (length (its @ take (nat (N - int (length its)))
                                        (arrayOrEmpty (optprop payload ''data''))))),
           continuation = coalesce (optprop (optprop payload ''links'') ''next'') JNull\<rparr>)"
  | (continue) c payload st1 u where
      "apiRequest rt tr st c = (Inr payload, st1)"
      "truthy (optprop (optprop payload ''links'') ''next'')"
      "int (length (its @ arrayOrEmpty (optprop payload ''data''))) < N"
      "listWithLinks_loop fuel rt tr path N st1 (its @ arrayOrEmpty (optprop payload ''data''))
         (Some u) [] = (res, st')"
proof -
  define c where "c =
    (case nextUrl of
       Some u \<Rightarrow>
         if u \<noteq> [] then
           \<lparr>call_method = ''GET'', call_path = None, call_query = None,
            call_body = None, call_absoluteUrl = Some u\<rparr>
         else
           \<lparr>call_method = ''GET'', call_path = Some path,
            call_query = Some fq, call_body = None, call_absoluteUrl = None\<rparr>
     | None \<Rightarrow>
         \<lparr>call_method = ''GET'', call_path = Some path,
          call_query = Some fq, call_body = None, call_absoluteUrl = None\<rparr>)"
  obtain out st1 where a: "apiRequest rt tr st c = (out, st1)"
    by (cases "apiRequest rt tr st c")
  show thesis
  proof (cases out)
    case (Inl e)
    with assms a thrown show ?thesis
      by (auto simp: Let_def c_def [symmetric])
  next
    case (Inr payload)
    let ?page = "arrayOrEmpty (optprop payload ''data'')"
    let ?its' = "its @ take (nat (N - int (length its))) ?page"
    let ?next = "optprop (optprop payload ''links'') ''next''"
    show ?thesis
    proof (cases "\<not> truthy ?next \<or> N \<le> int (length ?its')")
      case True
      with assms a Inr stop show ?thesis
        by (auto simp: Let_def c_def [symmetric])
    next
      case False
      then have lt: "int (length ?its') < N" by simp
      note whole = take_whole [OF lt]
      from False assms a Inr have r:
        "(case ?next of
            JStr s \<Rightarrow>
              if take 4 s = ''http'' then
                listWithLinks_loop fuel rt tr path N st1 ?its' (Some s) []
              else
                (case rtResolveUrl rt s of
                   None \<Rightarrow> (Some (Inl (RuntimeError ''Invalid URL'')), st1)
                 | Some u \<Rightarrow> listWithLinks_loop fuel rt tr path N st1 ?its' (Some u) [])
          | _ \<Rightarrow>
              (Some (Inl (RuntimeError ''candidateNext.startsWith is not a function'')), st1))
         = (res, st')"
        by (simp add: Let_def c_def [symmetric])
      show ?thesis
      proof (cases "\<exists>u. listWithLinks_loop fuel rt tr path N st1 ?its' (Some u) [] = (res, st')")
        case True
        then obtain u where
          "listWithLinks_loop fuel rt tr path N st1 ?its' (Some u) [] = (res, st')" ..
        with False lt a Inr continue show ?thesis
          unfolding whole by simp
      next
        case no: False
        with r have "st1 = st' \<and> (\<exists>e. res = Some (Inl e))"
          by (auto split: jsval.splits if_splits option.splits)
        with a Inr thrown show ?thesis by blast
      qed
    qed
  qed
qed

lemma listWithLinks_loop_trace:
  assumes "listWithLinks_loop fuel rt tr path N st its nextUrl fq = (res, st')"
  shows "\<exists>evs. calls st' = calls st @ evs \<and>
           (\<forall>i < length evs.
              int (length its) + int (length (concat (map pageItemsOf (take i evs)))) < N)"
  using assms
proof (induction fuel arbitrary: st its nextUrl fq)
  case 0
  then show ?case by simp
next
  case (Suc fuel)
  show ?case
  proof (cases "int (length its) < N")
    case False
    with Suc.prems show ?thesis by simp
  next
    case True
    from Suc.prems True show ?thesis
    proof (cases rule: listWithLinks_loop_step)
      case (thrown c out e)
      from apiRequest_calls [OF thrown(1)] True show ?thesis
        by (intro exI [of _ "[(c, out)]"]) simp
    next
      case (stop c payload)
      from apiRequest_calls [OF stop(1)] True show ?thesis
        by (intro exI [of _ "[(c, Inr payload)]"]) simp
    next
      case (continue c payload st1 u)
      from Suc.IH [OF continue(4)] obtain evs where
        evs: "calls st' = calls st1 @ evs"
          "\<forall>i < length evs. int (length (its @ arrayOrEmpty (optprop payload ''data''))) +
              int (length (concat (map pageItemsOf (take i evs)))) < N"
        by blast
      have p: "pageItemsOf (c, Inr payload) = arrayOrEmpty (optprop payload ''data'')"
        by (simp add: pageItemsOf_def)
      have "\<forall>i < length ((c, Inr payload) # evs).
              int (length its) +
              int (length (concat (map pageItemsOf (take i ((c, Inr payload) # evs))))) < N"
      proof (intro allI impI)
        fix i assume i: "i < length ((c, Inr payload) # evs)"
        show "int (length its) +
              int (length (concat (map pageItemsOf (take i ((c, Inr payload) # evs))))) < N"
        proof (cases i)
          case 0
          with True show ?thesis by simp
        next
          case (Suc j)
          with i evs(2) [rule_format, of j] show ?thesis by (simp add: p)
        qed
      qed
      with evs(1) apiRequest_calls [OF continue(1)] show ?thesis
        by (intro exI [of _ "(c, Inr payload) # evs"]) simp
    qed
  qed
qed

lemma listWithLinks_loop_result:
  assumes "listWithLinks_loop fuel rt tr path N st its nextUrl fq = (Some (Inr r), st')"
    and "int (length its) < N"
  shows "\<exists>evs. calls st' = calls st @ evs \<and> evs \<noteq> [] \<and>
           items r = its @ take (nat (N - int (length its))) (concat (map pageItemsOf evs)) \<and>
           count r = length (items r) \<and>
           has_more r = (truthy (nextLinkOf (last evs)) \<and> N \<le> int (length (items r)))"
  using assms
proof (induction fuel arbitrary: st its nextUrl fq)
  case 0
  then show ?case by simp
next
  case (Suc fuel)
  from Suc.prems show ?case
  proof (cases rule: listWithLinks_loop_step)
    case (thrown c out e)
    then show ?thesis by simp
  next
    case (stop c payload)
    from apiRequest_calls [OF stop(1)] stop(2) show ?thesis
      by (intro exI [of _ "[(c, Inr payload)]"]) (simp add: pageItemsOf_def nextLinkOf_def)
  next
    case (continue c payload st1 u)
    let ?page = "arrayOrEmpty (optprop payload ''data'')"
    from Suc.IH [OF continue(4) continue(3)] obtain evs where
      evs: "calls st' = calls st1 @ evs" "evs \<noteq> []"
        "items r = (its @ ?page) @
           take (nat (N - int (length (its @ ?page)))) (concat (map pageItemsOf evs))"
        "count r = length (items r)"
        "has_more r = (truthy (nextLinkOf (last evs)) \<and> N \<le> int (length (items r)))"
      by blast
    have p: "pageItemsOf (c, Inr payload) = ?page"
      by (simp add: pageItemsOf_def)
    have k: "nat (N - int (length (its @ ?page))) = nat (N - int (length its)) - length ?page"
      by simp
    have w: "take (nat (N - int (length its))) ?page = ?page"
      using continue(3) by simp
    have "its @ take (nat (N - int (length its)))
                 (concat (map pageItemsOf ((c, Inr payload) # evs))) =
          its @ take (nat (N - int (length its))) ?page @
            take (nat (N - int (length its)) - length ?page) (concat (map pageItemsOf evs))"
      by (simp add: p)
    also have "\<dots> = items r"
      unfolding evs(3) k w by simp
    finally have "items r = its @ take (nat (N - int (length its)))
                            (concat (map pageItemsOf ((c, Inr payload) # evs)))"
      by simp
    with evs apiRequest_calls [OF continue(1)] show ?thesis
      by (intro exI [of _ "(c, Inr payload) # evs"]) simp
  qed
qed

lemma listNotes_loop_step:
  assumes "listNotes_loop (Suc fuel) rt tr query N st its cursor = (res, st')"
    and "int (length its) < N"
  obtains (failed) e where
      "apiRequest rt tr st (notesCall query N its cursor) = (Inl e, st')" "res = Some (Inl e)"
  | (stop) payload where
      "apiRequest rt tr st (notesCall query N its cursor) = (Inr payload, st')"
      "res = Some (Inr \<lparr>items = its @ take (nat (N - int (length its))) (arrayOrEmpty (optprop payload ''data'')),
            count = length (its @ take (nat (N - int (length its))) (arrayOrEmpty (optprop payload ''data''))),
            has_more = (truthy (optprop payload ''pageCursor'') \<and>
               N \<le> int (length (its @ take (nat (N - int (length its))) (arrayOrEmpty (optprop payload ''data''))))),
            continuation = coalesce (optprop payload ''pageCursor'') JNull\<rparr>)"
      "\<not> truthy (optprop payload ''pageCursor'') \<or>
       N \<le> int (length (its @ take (nat (N - int (length its))) (arrayOrEmpty (optprop payload ''data''))))"
  | (continue) payload st1 where
      "apiRequest rt tr st (notesCall query N its cursor) = (Inr payload, st1)"
      "truthy (optprop payload ''pageCursor'')"
      "int (length (its @ arrayOrEmpty (optprop payload ''data''))) < N"
      "listNotes_loop fuel rt tr query N st1 (its @ arrayOrEmpty (optprop payload ''data''))
         (optprop payload ''pageCursor'') = (res, st')"
proof -
  obtain out st1 where a: "apiRequest rt tr st (notesCall query N its cursor) = (out, st1)"
    by (cases "apiRequest rt tr st (notesCall query N its cursor)")
  show thesis
  proof (cases out)
    case (Inl e)
    with assms a failed show ?thesis
      by (auto simp: Let_def notesCall_def)
  next
    case (Inr payload)
    let ?its' = "its @ take (nat (N - int (length its))) (arrayOrEmpty (optprop payload ''data''))"
    show ?thesis
    proof (cases "\<not> truthy (optprop payload ''pageCursor'') \<or> N \<le> int (length ?its')")
      case True
      with assms a Inr stop show ?thesis
        by (auto simp: Let_def notesCall_def)
    next
      case False
      then have lt: "int (length ?its') < N" by simp
      note whole = take_whole [OF lt]
      from False assms a Inr have
        "listNotes_loop fuel rt tr query N st1 ?its' (optprop payload ''pageCursor'') =
           (res, st')"
        by (simp add: Let_def notesCall_def)
      with False lt a Inr continue show ?thesis
        unfolding whole by simp
    qed
  qed
qed

lemma listNotes_loop_trace:
  assumes "listNotes_loop fuel rt tr query N st its cursor = (res, st')"
  shows "\<exists>evs. calls st' = calls st @ evs \<and>
           (\<forall>i < length evs.
              int (length its) + int (length (concat (map pageItemsOf (take i evs)))) < N \<and>
              fst (evs ! i) =
                notesCall query N (its @ concat (map pageItemsOf (take i evs)))
                  (if i = 0 then cursor else cursorOf (evs ! (i - 1))) \<and>
              (0 < i \<longrightarrow> truthy (cursorOf (evs ! (i - 1)))))"
  using assms
proof (induction fuel arbitrary: st its cursor)
  case 0
  then show ?case by simp
next
  case (Suc fuel)
  show ?case
  proof (cases "int (length its) < N")
    case False
    with Suc.prems show ?thesis by simp
  next
    case True
    from Suc.prems True show ?thesis
    proof (cases rule: listNotes_loop_step)
      case (failed e)
      from apiRequest_calls [OF failed(1)] True show ?thesis
        by (intro exI [of _ "[(notesCall query N its cursor, Inl e)]"]) simp
    next
      case (stop payload)
      from apiRequest_calls [OF stop(1)] True show ?thesis
        by (intro exI [of _ "[(notesCall query N its cursor, Inr payload)]"]) simp
    next
      case (continue payload st1)
      let ?page = "arrayOrEmpty (optprop payload ''data'')"
      let ?ev = "(notesCall query N its cursor, Inr payload :: js_error + jsval)"
      from Suc.IH [OF continue(4)] obtain evs where
        evs: "calls st' = calls st1 @ evs"
          "\<forall>i < length evs.
             int (length (its @ ?page)) + int (length (concat (map pageItemsOf (take i evs)))) < N \<and>
             fst (evs ! i) =
               notesCall query N ((its @ ?page) @ concat (map pageItemsOf (take i evs)))
                 (if i = 0 then optprop payload ''pageCursor'' else cursorOf (evs ! (i - 1))) \<and>
             (0 < i \<longrightarrow> truthy (cursorOf (evs ! (i - 1))))"
        by blast
      have p: "pageItemsOf ?ev = ?page" "cursorOf ?ev = optprop payload ''pageCursor''"
        by (simp_all add: pageItemsOf_def cursorOf_def)
      have "\<forall>i < length (?ev # evs).
              int (length its) + int (length (concat (map pageItemsOf (take i (?ev # evs))))) < N \<and>
              fst ((?ev # evs) ! i) =
                notesCall query N (its @ concat (map pageItemsOf (take i (?ev # evs))))
                  (if i = 0 then cursor else cursorOf ((?ev # evs) ! (i - 1))) \<and>
              (0 < i \<longrightarrow> truthy (cursorOf ((?ev # evs) ! (i - 1))))"
      proof (intro allI impI)
        fix i assume i: "i < length (?ev # evs)"
        show "int (length its) + int (length (concat (map pageItemsOf (take i (?ev # evs))))) < N \<and>
              fst ((?ev # evs) ! i) =
                notesCall query N (its @ concat (map pageItemsOf (take i (?ev # evs))))
                  (if i = 0 then cursor else cursorOf ((?ev # evs) ! (i - 1))) \<and>
              (0 < i \<longrightarrow> truthy (cursorOf ((?ev # evs) ! (i - 1))))"
        proof (cases i)
          case 0
          with True show ?thesis by simp
        next
          case (Suc j)
          with i evs(2) [rule_format, of j] continue(2) show ?thesis
            by (simp add: p nth_Cons')
        qed
      qed
      with evs(1) apiRequest_calls [OF continue(1)] show ?thesis
        by (intro exI [of _ "?ev # evs"]) simp
    qed
  qed
qed

lemma listNotes_loop_result:
  assumes "listNotes_loop fuel rt tr query N st its cursor = (Some (Inr r), st')"
    and "int (length its) < N"
  shows "\<exists>evs. calls st' = calls st @ evs \<and> evs \<noteq> [] \<and>
           items r = its @ take (nat (N - int (length its))) (concat (map pageItemsOf evs)) \<and>
           count r = length (items r) \<and>
           has_more r = (truthy (cursorOf (last evs)) \<and> N \<le> int (length (items r)))"
  using assms
proof (induction fuel arbitrary: st its cursor)
  case 0
  then show ?case by simp
next
  case (Suc fuel)
  from Suc.prems show ?case
  proof (cases rule: listNotes_loop_step)
    case (failed e)
    then show ?thesis by simp
  next
    case (stop payload)
    from apiRequest_calls [OF stop(1)] stop(2) show ?thesis
      by (intro exI [of _ "[(notesCall query N its cursor, Inr payload)]"])
         (simp add: pageItemsOf_def cursorOf_def)
  next
    case (continue payload st1)
    let ?page = "arrayOrEmpty (optprop payload ''data'')"
    let ?ev = "(notesCall query N its cursor, Inr payload :: js_error + jsval)"
    from Suc.IH [OF continue(4) continue(3)] obtain evs where
      evs: "calls st' = calls st1 @ evs" "evs \<noteq> []"
        "items r = (its @ ?page) @
           take (nat (N - int (length (its @ ?page)))) (concat (map pageItemsOf evs))"
        "count r = length (items r)"
        "has_more r = (truthy (cursorOf (last evs)) \<and> N \<le> int (length (items r)))"
      by blast
    have p: "pageItemsOf ?ev = ?page"
      by (simp add: pageItemsOf_def)
    have k: "nat (N - int (length (its @ ?page))) = nat (N - int (length its)) - length ?page"
      by simp
    have w: "take (nat (N - int (length its))) ?page = ?page"
      using continue(3) by simp
    have "its @ take (nat (N - int (length its))) (concat (map pageItemsOf (?ev # evs))) =
          its @ take (nat (N - int (length its))) ?page @
            take (nat (N - int (length its)) - length ?page) (concat (map pageItemsOf evs))"
      by (simp add: p)
    also have "\<dots> = items r"
      unfolding evs(3) k w by simp
    finally have "items r = its @ take (nat (N - int (length its)))
                            (concat (map pageItemsOf (?ev # evs)))"
      by simp
    with evs apiRequest_calls [OF continue(1)] show ?thesis
      by (intro exI [of _ "?ev # evs"]) simp
  qed
qed

text \<open>Against a productive server the loops return within \<open>maxItems\<close> iterations.\<close>

lemma listWithLinks_loop_returns:
  assumes "productiveLinks rt tr" and "0 < fuel" and "N - int (length its) \<le> int fuel"
  shows "fst (listWithLinks_loop fuel rt tr path N st its nextUrl fq) \<noteq> None"
  using assms(2,3)
proof (induction fuel arbitrary: st its nextUrl fq)
  case 0
  then show ?case by simp
next
  case (Suc fuel)
  show ?case
  proof (cases "int (length its) < N")
    case False
    then show ?thesis by simp
  next
    case True
    obtain res st' where r:
      "listWithLinks_loop (Suc fuel) rt tr path N st its nextUrl fq = (res, st')"
      by (cases "listWithLinks_loop (Suc fuel) rt tr path N st its nextUrl fq")
    from r True show ?thesis
    proof (cases rule: listWithLinks_loop_step)
      case (thrown c out e)
      then show ?thesis unfolding r by simp
    next
      case (stop c payload)
      then show ?thesis unfolding r by simp
    next
      case (continue c payload st1 u)
      have "arrayOrEmpty (optprop payload ''data'') \<noteq> []"
        using assms(1) continue(1,2) unfolding productiveLinks_def by blast
      then have pos: "1 \<le> int (length (arrayOrEmpty (optprop payload ''data'')))"
        by (cases "arrayOrEmpty (optprop payload ''data'')") simp_all
      have l: "int (length (its @ arrayOrEmpty (optprop payload ''data''))) =
               int (length its) + int (length (arrayOrEmpty (optprop payload ''data'')))"
        by simp
      from pos continue(3) Suc.prems(2) have
        "0 < fuel" "N - int (length (its @ arrayOrEmpty (optprop payload ''data''))) \<le> int fuel"
        unfolding l by linarith+
      from Suc.IH [OF this] continue(4) have "res \<noteq> None"
        by (metis fst_conv)
      then show ?thesis
        unfolding r by simp
    qed
  qed
qed

lemma listNotes_loop_returns:
  assumes "productiveNotes rt tr" and "0 < fuel" and "N - int (length its) \<le> int fuel"
  shows "fst (listNotes_loop fuel rt tr query N st its cursor) \<noteq> None"
  using assms(2,3)
proof (induction fuel arbitrary: st its cursor)
  case 0
  then show ?case by simp
next
  case (Suc fuel)
  show ?case
  proof (cases "int (length its) < N")
    case False
    then show ?thesis by simp
  next
    case True
    obtain res st' where r:
      "listNotes_loop (Suc fuel) rt tr query N st its cursor = (res, st')"
      by (cases "listNotes_loop (Suc fuel) rt tr query N st its cursor")
    from r True show ?thesis
    proof (cases rule: listNotes_loop_step)
      case (failed e)
      then show ?thesis unfolding r by simp
    next
      case (stop payload)
      then show ?thesis unfolding r by simp
    next
      case (continue payload st1)
      have "arrayOrEmpty (optprop payload ''data'') \<noteq> []"
        using assms(1) continue(1,2) unfolding productiveNotes_def by blast
      then have pos: "1 \<le> int (length (arrayOrEmpty (optprop payload ''data'')))"
        by (cases "arrayOrEmpty (optprop payload ''data'')") simp_all
      have l: "int (length (its @ arrayOrEmpty (optprop payload ''data''))) =
               int (length its) + int (length (arrayOrEmpty (optprop payload ''data'')))"
        by simp
      from pos continue(3) Suc.prems(2) have
        "0 < fuel" "N - int (length (its @ arrayOrEmpty (optprop payload ''data''))) \<le> int fuel"
        unfolding l by linarith+
      from Suc.IH [OF this] continue(4) have "res \<noteq> None"
        by (metis fst_conv)
      then show ?thesis
        unfolding r by simp
    qed
  qed
qed

text \<open>
  A loop is still running after \<open>fuel\<close> iterations only if the server has answered
  \<open>fuel\<close> requests, each with a continuation token.
\<close>

lemma listWithLinks_loop_out_of_fuel:
  assumes "listWithLinks_loop fuel rt tr path N st its nextUrl fq = (None, st')"
  shows "\<exists>evs. calls st' = calls st @ evs \<and> length evs = fuel \<and>
           (\<forall>ev \<in> set evs. truthy (nextLinkOf ev))"
  using assms
proof (induction fuel arbitrary: st its nextUrl fq)
  case 0
  then show ?case by simp
next
  case (Suc fuel)
  show ?case
  proof (cases "int (length its) < N")
    case False
    with Suc.prems show ?thesis by simp
  next
    case True
    from Suc.prems True show ?thesis
    proof (cases rule: listWithLinks_loop_step)
      case (thrown c out e)
      then show ?thesis by simp
    next
      case (stop c payload)
      then show ?thesis by simp
    next
      case (continue c payload st1 u)
      from Suc.IH [OF continue(4)] obtain evs where
        evs: "calls st' = calls st1 @ evs" "length evs = fuel"
          "\<forall>ev \<in> set evs. truthy (nextLinkOf ev)"
        by blast
      have "truthy (nextLinkOf (c, Inr payload))"
        using continue(2) by (simp add: nextLinkOf_def)
      with evs apiRequest_calls [OF continue(1)] show ?thesis
        by (intro exI [of _ "(c, Inr payload) # evs"]) simp
    qed
  qed
qed

lemma listNotes_loop_out_of_fuel:
  assumes "listNotes_loop fuel rt tr query N st its cursor = (None, st')"
  shows "\<exists>evs. calls st' = calls st @ evs \<and> length evs = fuel \<and>
           (\<forall>ev \<in> set evs. truthy (cursorOf ev))"
  using assms
proof (induction fuel arbitrary: st its cursor)
  case 0
  then show ?case by simp
next
  case (Suc fuel)
  show ?case
  proof (cases "int (length its) < N")
    case False
    with Suc.prems show ?thesis by simp
  next
    case True
    from Suc.prems True show ?thesis
    proof (cases rule: listNotes_loop_step)
      case (failed e)
      then show ?thesis by simp
    next
      case (stop payload)
      then show ?thesis by simp
    next
      case (continue payload st1)
      from Suc.IH [OF continue(4)] obtain evs where
        evs: "calls st' = calls st1 @ evs" "length evs = fuel"
          "\<forall>ev \<in> set evs. truthy (cursorOf ev)"
        by blast
      have "truthy (cursorOf (notesCall query N its cursor, Inr payload))"
        using continue(2) by (simp add: cursorOf_def)
      with evs apiRequest_calls [OF continue(1)] show ?thesis
        by (intro exI [of _ "(notesCall query N its cursor, Inr payload) # evs"]) simp
    qed
  qed
qed

lemma normalizeLimit_default:
  "normalizeLimit rt (if limit = JUndefined then JNum (Fin (of_int DEFAULT_LIMIT)) else limit) =
   normalizeLimit rt limit"
  by (simp add: normalizeLimit_def coalesce_def)

lemma notesPageQuery_pageLimit:
  "getProp (notesPageQuery query pageLimit cursor) ''pageLimit'' = JNum (Fin (of_int pageLimit))"
  by (simp add: notesPageQuery_def getProp_def Let_def AList.update_conv AList.delete_conv)

lemma notesPageQuery_cursor:
  "truthy cursor \<Longrightarrow> getProp (notesPageQuery query pageLimit cursor) ''pageCursor'' = cursor"
  by (simp add: notesPageQuery_def getProp_def Let_def AList.update_conv)

lemma notesPageQuery_no_cursor:
  "\<not> truthy cursor \<Longrightarrow> ''pageCursor'' \<notin> fst ` set (notesPageQuery query pageLimit cursor)"
  by (simp add: notesPageQuery_def Let_def AList.delete_notin_dom)

section \<open>The demo endpoints\<close>

lemma demoPageText_nonempty: "demoPageText \<noteq> []"
  by (simp add: demoPageText_def)

lemma demoNotesText_nonempty: "demoNotesText w \<noteq> []"
  by (simp add: demoNotesText_def)

lemma demo_apiRequest:
  "apiRequest demoRuntime demoTransport st c =
     (Inr demoPage, \<lparr>world = Suc (world st), calls = calls st @ [(c, Inr demoPage)]\<rparr>)"
  by (simp add: apiRequest_def demoTransport_def decodeResponse_def resp_ok_def
      demoPageText_nonempty coalesce_def demoPage_def Let_def)

lemma demo_notes_apiRequest:
  "apiRequest demoRuntime demoNotesTransport st c =
     (Inr (demoNotesPage (world st)),
      \<lparr>world = Suc (world st), calls = calls st @ [(c, Inr (demoNotesPage (world st)))]\<rparr>)"
  by (simp add: apiRequest_def demoNotesTransport_def decodeResponse_def resp_ok_def
      demoNotesText_nonempty coalesce_def demoNotesPage_def Let_def)

lemma demo_page_items: "arrayOrEmpty (optprop demoPage ''data'') = replicate 100 demoItem"
  by (simp add: demoPage_def)

lemma demo_page_next:
  "optprop (optprop demoPage ''links'') ''next'' = JStr ''/features?pageOffset=100''"
  by (simp add: demoPage_def)

lemma demo_resolve: "rtResolveUrl demoRuntime s = Some (''https://api.productboard.com'' @ s)"
  by (simp add: demoRuntime_def)

lemma demo_links_run:
  "listWithLinks (Suc (Suc (Suc 0))) demoRuntime demoTransport io0 ''/features'' []
     (JNum (Fin 250)) None =
   (Some (Inr \<lparr>items = replicate 250 demoItem, count = 250, has_more = True,
               continuation = JStr ''/features?pageOffset=100''\<rparr>),
    \<lparr>world = 3,
     calls =
       [(\<lparr>call_method = ''GET'', call_path = Some ''/features'', call_query = Some [],
          call_body = None, call_absoluteUrl = None\<rparr>, Inr demoPage),
        (\<lparr>call_method = ''GET'', call_path = None, call_query = None, call_body = None,
          call_absoluteUrl = Some ''https://api.productboard.com/features?pageOffset=100''\<rparr>,
         Inr demoPage),
        (\<lparr>call_method = ''GET'', call_path = None, call_query = None, call_body = None,
          call_absoluteUrl = Some ''https://api.productboard.com/features?pageOffset=100''\<rparr>,
         Inr demoPage)]\<rparr>)"
  by (simp add: listWithLinks_def normalizeLimit_number demo_apiRequest demo_page_items
      demo_page_next Let_def io0_def demo_resolve coalesce_def replicate_add [symmetric])

lemma stalling_apiRequest:
  "apiRequest demoRuntime stallingTransport st c =
     (Inr stallingPage,
      \<lparr>world = Suc (world st), calls = calls st @ [(c, Inr stallingPage)]\<rparr>)"
  by (simp add: apiRequest_def stallingTransport_def decodeResponse_def resp_ok_def
      coalesce_def stallingPage_def Let_def)

lemma stalling_page:
  "arrayOrEmpty (optprop stallingPage ''data'') = []"
  "optprop (optprop stallingPage ''links'') ''next'' = JStr ''/features''"
  by (simp_all add: stallingPage_def)

text \<open>
  Against the stalling endpoint the loop of \<open>listWithLinks\<close> never returns: whatever the
  fuel, it runs out.
\<close>

lemma listWithLinks_loop_stalls:
  assumes "0 < N"
  shows "fst (listWithLinks_loop fuel demoRuntime stallingTransport path N st [] nextUrl fq) = None"
proof (induction fuel arbitrary: st nextUrl fq)
  case 0
  show ?case by simp
next
  case (Suc fuel)
  from assms Suc.IH show ?case
    by (simp add: stalling_apiRequest stalling_page demo_resolve Let_def)
qed

section \<open>The walkers: quota and continuation\<close>

lemma listWithLinks_unfold:
  "\<exists>fq. listWithLinks fuel rt tr st path query limit psp =
         listWithLinks_loop fuel rt tr path (normalizeLimit rt limit) st [] None fq"
  unfolding listWithLinks_def normalizeLimit_default Let_def by (rule exI, rule refl)

lemma listNotes_unfold:
  "listNotes fuel rt tr st query limit =
     listNotes_loop fuel rt tr query (normalizeLimit rt limit) st [] (getProp query ''pageCursor'')"
  by (simp add: listNotes_def normalizeLimit_default Let_def)

text \<open>
  C1. For every requested maximum \<open>N\<close> in [1, 1000] and every server, a run of either
  walker that returns a result returns at most \<open>N\<close> items, and its \<open>has_more\<close> is true
  exactly when the quota was reached and the last response received carried a
  continuation token (\<open>links.next\<close>, \<open>pageCursor\<close>). Against a productive server the
  run does return, within \<open>N\<close> iterations; against any server, a run that has not
  returned after \<open>fuel\<close> iterations has received \<open>fuel\<close> responses that all carried a
  continuation token.
\<close>

theorem walkers_quota_and_has_more:
  assumes "1 \<le> N" and "N \<le> 1000"
  shows
    "(\<forall>r st'. listWithLinks fuel rt tr st path query (JNum (Fin (of_int N))) psp =
               (Some (Inr r), st') \<longrightarrow>
        (\<exists>evs. calls st' = calls st @ evs \<and> evs \<noteq> [] \<and>
           int (length (items r)) \<le> N \<and> count r = length (items r) \<and>
           (has_more r \<longleftrightarrow> truthy (nextLinkOf (last evs)) \<and> int (length (items r)) = N)))
     \<and> (\<forall>r st'. listNotes fuel rt tr st query (JNum (Fin (of_int N))) = (Some (Inr r), st') \<longrightarrow>
        (\<exists>evs. calls st' = calls st @ evs \<and> evs \<noteq> [] \<and>
           int (length (items r)) \<le> N \<and> count r = length (items r) \<and>
           (has_more r \<longleftrightarrow> truthy (cursorOf (last evs)) \<and> int (length (items r)) = N)))
     \<and> (productiveLinks rt tr \<and> nat N \<le> fuel \<longrightarrow>
          fst (listWithLinks fuel rt tr st path query (JNum (Fin (of_int N))) psp) \<noteq> None)
     \<and> (productiveNotes rt tr \<and> nat N \<le> fuel \<longrightarrow>
          fst (listNotes fuel rt tr st query (JNum (Fin (of_int N)))) \<noteq> None)
     \<and> (\<forall>st'. listWithLinks fuel rt tr st path query (JNum (Fin (of_int N))) psp =
               (None, st') \<longrightarrow>
          (\<exists>evs. calls st' = calls st @ evs \<and> length evs = fuel \<and>
             (\<forall>ev \<in> set evs. truthy (nextLinkOf ev))))
     \<and> (\<forall>st'. listNotes fuel rt tr st query (JNum (Fin (of_int N))) = (None, st') \<longrightarrow>
          (\<exists>evs. calls st' = calls st @ evs \<and> length evs = fuel \<and>
             (\<forall>ev \<in> set evs. truthy (cursorOf ev))))"
proof -
  have n: "normalizeLimit rt (JNum (Fin (of_int N))) = N"
    using assms by (rule normalizeLimit_integer)
  obtain fq where l: "listWithLinks fuel rt tr st path query (JNum (Fin (of_int N))) psp =
      listWithLinks_loop fuel rt tr path N st [] None fq"
    using listWithLinks_unfold [of fuel rt tr st path query "JNum (Fin (of_int N))" psp]
    unfolding n by blast
  have nn: "listNotes fuel rt tr st query (JNum (Fin (of_int N))) =
      listNotes_loop fuel rt tr query N st [] (getProp query ''pageCursor'')"
    unfolding listNotes_unfold n by (rule refl)
  have bound: "int (length (take (nat N) xs)) \<le> N" for xs :: "jsval list"
    using assms by simp
  have z: "int (length ([] :: jsval list)) < N"
    using assms by simp
  have a: "\<exists>evs. calls st' = calls st @ evs \<and> evs \<noteq> [] \<and>
           int (length (items r)) \<le> N \<and> count r = length (items r) \<and>
           (has_more r \<longleftrightarrow> truthy (nextLinkOf (last evs)) \<and> int (length (items r)) = N)"
    if "listWithLinks_loop fuel rt tr path N st [] None fq = (Some (Inr r), st')" for r st'
  proof -
    from listWithLinks_loop_result [OF that z] obtain evs where
      evs: "calls st' = calls st @ evs" "evs \<noteq> []"
        "items r = [] @ take (nat (N - int (length ([] :: jsval list))))
                          (concat (map pageItemsOf evs))"
        "count r = length (items r)"
        "has_more r = (truthy (nextLinkOf (last evs)) \<and> N \<le> int (length (items r)))"
      by blast
    from evs(3) have le: "int (length (items r)) \<le> N"
      using bound [of "concat (map pageItemsOf evs)"] by simp
    then have "N \<le> int (length (items r)) \<longleftrightarrow> int (length (items r)) = N"
      by linarith
    with evs(1,2,4,5) le show ?thesis
      by (intro exI [of _ evs]) simp
  qed
  have b: "\<exists>evs. calls st' = calls st @ evs \<and> evs \<noteq> [] \<and>
           int (length (items r)) \<le> N \<and> count r = length (items r) \<and>
           (has_more r \<longleftrightarrow> truthy (cursorOf (last evs)) \<and> int (length (items r)) = N)"
    if "listNotes_loop fuel rt tr query N st [] (getProp query ''pageCursor'') =
          (Some (Inr r), st')" for r st'
  proof -
    from listNotes_loop_result [OF that z] obtain evs where
      evs: "calls st' = calls st @ evs" "evs \<noteq> []"
        "items r = [] @ take (nat (N - int (length ([] :: jsval list))))
                          (concat (map pageItemsOf evs))"
        "count r = length (items r)"
        "has_more r = (truthy (cursorOf (last evs)) \<and> N \<le> int (length (items r)))"
      by blast
    from evs(3) have le: "int (length (items r)) \<le> N"
      using bound [of "concat (map pageItemsOf evs)"] by simp
    then have "N \<le> int (length (items r)) \<longleftrightarrow> int (length (items r)) = N"
      by linarith
    with evs(1,2,4,5) le show ?thesis
      by (intro exI [of _ evs]) simp
  qed
  have c: "fst (listWithLinks_loop fuel rt tr path N st [] None fq) \<noteq> None"
    if "productiveLinks rt tr \<and> nat N \<le> fuel"
    using that assms by (intro listWithLinks_loop_returns) auto
  have d: "fst (listNotes_loop fuel rt tr query N st [] (getProp query ''pageCursor'')) \<noteq> None"
    if "productiveNotes rt tr \<and> nat N \<le> fuel"
    using that assms by (intro listNotes_loop_returns) auto
  have e: "\<exists>evs. calls st' = calls st @ evs \<and> length evs = fuel \<and>
             (\<forall>ev \<in> set evs. truthy (nextLinkOf ev))"
    if "listWithLinks_loop fuel rt tr path N st [] None fq = (None, st')" for st'
    using that by (rule listWithLinks_loop_out_of_fuel)
  have f: "\<exists>evs. calls st' = calls st @ evs \<and> length evs = fuel \<and>
             (\<forall>ev \<in> set evs. truthy (cursorOf ev))"
    if "listNotes_loop fuel rt tr query N st [] (getProp query ''pageCursor'') = (None, st')"
    for st'
    using that by (rule listNotes_loop_out_of_fuel)
  show ?thesis
    unfolding l nn using a b c d e f by (intro conjI allI impI)
qed

lemma alwaysPage_continue:
  assumes "alwaysPage rt tr k" and "int (length its) + int k < N"
  shows "\<exists>c payload st1 u.
           apiRequest rt tr st c = (Inr payload, st1) \<and>
           length (arrayOrEmpty (optprop payload ''data'')) = k \<and>
           listWithLinks_loop (Suc fuel) rt tr path N st its nextUrl fq =
             listWithLinks_loop fuel rt tr path N st1
               (its @ arrayOrEmpty (optprop payload ''data'')) (Some u) []"
proof -
  define c where "c =
    (case nextUrl of
       Some u \<Rightarrow>
         if u \<noteq> [] then
           \<lparr>call_method = ''GET'', call_path = None, call_query = None,
            call_body = None, call_absoluteUrl = Some u\<rparr>
         else
           \<lparr>call_method = ''GET'', call_path = Some path,
            call_query = Some fq, call_body = None, call_absoluteUrl = None\<rparr>
     | None \<Rightarrow>
         \<lparr>call_method = ''GET'', call_path = Some path,
          call_query = Some fq, call_body = None, call_absoluteUrl = None\<rparr>)"
  from assms(1) obtain payload st1 s where
    a: "apiRequest rt tr st c = (Inr payload, st1)"
    and k: "length (arrayOrEmpty (optprop payload ''data'')) = k"
    and s: "optprop (optprop payload ''links'') ''next'' = JStr s" "s \<noteq> []"
      "take 4 s = ''http'' \<or> rtResolveUrl rt s \<noteq> None"
    unfolding alwaysPage_def by blast
  from assms(2) k have w: "take (nat (N - int (length its))) (arrayOrEmpty (optprop payload ''data''))
      = arrayOrEmpty (optprop payload ''data'')"
    by simp
  show ?thesis
  proof (cases "take 4 s = ''http''")
    case True
    with a k s assms(2) w show ?thesis
      by (intro exI [of _ c] exI [of _ payload] exI [of _ st1] exI [of _ s])
         (simp add: c_def [symmetric] Let_def)
  next
    case False
    with s(3) obtain u where "rtResolveUrl rt s = Some u" by auto
    with False a k s assms(2) w show ?thesis
      by (intro exI [of _ c] exI [of _ payload] exI [of _ st1] exI [of _ u])
         (simp add: c_def [symmetric] Let_def)
  qed
qed

lemma alwaysPage_stop:
  assumes "alwaysPage rt tr k" and "int (length its) < N" and "N \<le> int (length its) + int k"
  shows "\<exists>c payload st1 r.
           apiRequest rt tr st c = (Inr payload, st1) \<and>
           listWithLinks_loop (Suc fuel) rt tr path N st its nextUrl fq = (Some (Inr r), st1) \<and>
           int (length (items r)) = N \<and> has_more r"
proof -
  define c where "c =
    (case nextUrl of
       Some u \<Rightarrow>
         if u \<noteq> [] then
           \<lparr>call_method = ''GET'', call_path = None, call_query = None,
            call_body = None, call_absoluteUrl = Some u\<rparr>
         else
           \<lparr>call_method = ''GET'', call_path = Some path,
            call_query = Some fq, call_body = None, call_absoluteUrl = None\<rparr>
     | None \<Rightarrow>
         \<lparr>call_method = ''GET'', call_path = Some path,
          call_query = Some fq, call_body = None, call_absoluteUrl = None\<rparr>)"
  from assms(1) obtain payload st1 s where
    a: "apiRequest rt tr st c = (Inr payload, st1)"
    and k: "length (arrayOrEmpty (optprop payload ''data'')) = k"
    and s: "optprop (optprop payload ''links'') ''next'' = JStr s" "s \<noteq> []"
    unfolding alwaysPage_def by blast
  from assms(2,3) k have
    l: "int (length (its @ take (nat (N - int (length its)))
                              (arrayOrEmpty (optprop payload ''data'')))) = N"
    by (simp add: min_def) linarith
  with a s assms(2) show ?thesis
    by (intro exI [of _ c] exI [of _ payload] exI [of _ st1]) (simp add: c_def [symmetric] Let_def)
qed

lemma alwaysPage_250:
  assumes "alwaysPage rt tr 100"
  shows "\<exists>r st'. listWithLinks_loop (Suc (Suc (Suc fuel))) rt tr path 250 st [] nextUrl fq =
                   (Some (Inr r), st') \<and>
           length (calls st') = length (calls st) + 3 \<and> length (items r) = 250 \<and> has_more r"
proof -
  from alwaysPage_continue [OF assms, of "[]" 250 st "Suc (Suc fuel)" path nextUrl fq]
  obtain c1 p1 st1 u1 where
    1: "apiRequest rt tr st c1 = (Inr p1, st1)"
      "length (arrayOrEmpty (optprop p1 ''data'')) = 100"
      "listWithLinks_loop (Suc (Suc (Suc fuel))) rt tr path 250 st [] nextUrl fq =
       listWithLinks_loop (Suc (Suc fuel)) rt tr path 250 st1
         ([] @ arrayOrEmpty (optprop p1 ''data'')) (Some u1) []"
    by auto
  from alwaysPage_continue [OF assms, of "[] @ arrayOrEmpty (optprop p1 ''data'')" 250 st1
      "Suc fuel" path "Some u1" "[]"] 1(2)
  obtain c2 p2 st2 u2 where
    2: "apiRequest rt tr st1 c2 = (Inr p2, st2)"
      "length (arrayOrEmpty (optprop p2 ''data'')) = 100"
      "listWithLinks_loop (Suc (Suc fuel)) rt tr path 250 st1
         ([] @ arrayOrEmpty (optprop p1 ''data'')) (Some u1) [] =
       listWithLinks_loop (Suc fuel) rt tr path 250 st2
         (([] @ arrayOrEmpty (optprop p1 ''data'')) @ arrayOrEmpty (optprop p2 ''data''))
         (Some u2) []"
    by auto
  from alwaysPage_stop [OF assms, of
      "([] @ arrayOrEmpty (optprop p1 ''data'')) @ arrayOrEmpty (optprop p2 ''data'')" 250 st2
      fuel path "Some u2" "[]"] 1(2) 2(2)
  obtain c3 p3 st3 r where
    3: "apiRequest rt tr st2 c3 = (Inr p3, st3)"
      "listWithLinks_loop (Suc fuel) rt tr path 250 st2
         (([] @ arrayOrEmpty (optprop p1 ''data'')) @ arrayOrEmpty (optprop p2 ''data''))
         (Some u2) [] = (Some (Inr r), st3)"
      "int (length (items r)) = 250" "has_more r"
    by auto
  have "length (calls st3) = length (calls st) + 3"
    using apiRequest_calls [OF 1(1)] apiRequest_calls [OF 2(1)] apiRequest_calls [OF 3(1)]
    by simp
  moreover have "length (items r) = 250"
    using 3(3) by simp
  ultimately show ?thesis
    using 1(3) 2(3) 3(2,4) by (intro exI [of _ r] exI [of _ st3]) simp
qed

lemma listWithLinks_loop_quota_met:
  "\<not> int (length its) < N \<Longrightarrow>
   listWithLinks_loop (Suc fuel) rt tr path N st its nextUrl fq =
     (Some (Inr \<lparr>items = its, count = length its, has_more = False,
                  continuation = JNull\<rparr>), st)"
  by simp

text \<open>
  C2. In every run of \<open>listWithLinks\<close>, finished or not, each request is issued while
  the items of the pages received so far are fewer than the maximum, and the items
  returned are the first \<open>maxItems\<close> items of the pages received: no request follows
  the one that reaches the quota. With maximum 250 against an endpoint that returns 100
  items per page and always supplies a next link, the run issues exactly 3 requests and
  returns 250 items with \<open>has_more = true\<close>.
\<close>

theorem listWithLinks_no_request_past_quota:
  "(\<forall>res st'. listWithLinks fuel rt tr st path query limit psp = (res, st') \<longrightarrow>
      (\<exists>evs. calls st' = calls st @ evs \<and>
         (\<forall>i < length evs.
            int (length (concat (map pageItemsOf (take i evs)))) < normalizeLimit rt limit) \<and>
         (\<forall>r. res = Some (Inr r) \<longrightarrow>
            items r = take (nat (normalizeLimit rt limit)) (concat (map pageItemsOf evs)))))
   \<and> (alwaysPage rt tr 100 \<and> 3 \<le> fuel \<longrightarrow>
        (\<exists>r st'. listWithLinks fuel rt tr st path query (JNum (Fin 250)) psp =
                    (Some (Inr r), st') \<and>
           length (calls st') = length (calls st) + 3 \<and>
           length (items r) = 250 \<and> has_more r))"
proof (intro conjI allI impI)
  fix res st'
  assume run: "listWithLinks fuel rt tr st path query limit psp = (res, st')"
  define N where "N = normalizeLimit rt limit"
  from listWithLinks_unfold [of fuel rt tr st path query limit psp] run obtain fq where
    loop: "listWithLinks_loop fuel rt tr path N st [] None fq = (res, st')"
    unfolding N_def by auto
  from listWithLinks_loop_trace [OF loop] obtain evs where
    evs: "calls st' = calls st @ evs"
      "\<forall>i < length evs. int (length (concat (map pageItemsOf (take i evs)))) < N"
    by auto
  have "items r = take (nat N) (concat (map pageItemsOf evs))" if r: "res = Some (Inr r)" for r
  proof (cases "0 < N")
    case True
    then have "int (length ([] :: jsval list)) < N" by simp
    from listWithLinks_loop_result [OF loop [unfolded r] this] obtain evs' where
      e: "calls st' = calls st @ evs'"
        "items r = [] @ take (nat (N - int (length ([] :: jsval list))))
                          (concat (map pageItemsOf evs'))"
      by blast
    from e(1) evs(1) have "evs' = evs" by simp
    with e(2) show ?thesis by simp
  next
    case False
    have "items r = []"
    proof (cases fuel)
      case 0
      with loop r show ?thesis by simp
    next
      case (Suc f)
      from False have "\<not> int (length ([] :: jsval list)) < N" by simp
      from loop [unfolded Suc listWithLinks_loop_quota_met [OF this]] r show ?thesis
        by auto
    qed
    with False show ?thesis by simp
  qed
  with evs show "\<exists>evs. calls st' = calls st @ evs \<and>
         (\<forall>i < length evs.
            int (length (concat (map pageItemsOf (take i evs)))) < normalizeLimit rt limit) \<and>
         (\<forall>r. res = Some (Inr r) \<longrightarrow>
            items r = take (nat (normalizeLimit rt limit)) (concat (map pageItemsOf evs)))"
    unfolding N_def by blast
next
  assume a: "alwaysPage rt tr 100 \<and> 3 \<le> fuel"
  then obtain f where "fuel = 3 + f"
    by (auto simp: le_iff_add)
  then have f: "fuel = Suc (Suc (Suc f))"
    by simp
  have n: "normalizeLimit rt (JNum (Fin 250)) = 250"
    by (simp add: normalizeLimit_number)
  from listWithLinks_unfold [of fuel rt tr st path query "JNum (Fin 250)" psp] obtain fq where
    "listWithLinks fuel rt tr st path query (JNum (Fin 250)) psp =
       listWithLinks_loop fuel rt tr path 250 st [] None fq"
    unfolding n by blast
  then show "\<exists>r st'. listWithLinks fuel rt tr st path query (JNum (Fin 250)) psp =
                    (Some (Inr r), st') \<and>
           length (calls st') = length (calls st) + 3 \<and>
           length (items r) = 250 \<and> has_more r"
    unfolding f using alwaysPage_250 [of rt tr f path st None fq] a by simp
qed

text \<open>
  C4. In every run of \<open>listNotes\<close>, finished or not, each request is a GET of
  \<open>/notes\<close> whose query has \<open>pageLimit = min(100, remaining)\<close>, where \<open>remaining\<close> is the
  maximum less the items received so far. After the first request the walker always
  holds the cursor of the prior response and sends it as \<open>pageCursor\<close>. On the first
  request it sends the caller's \<open>pageCursor\<close> when that is not empty, and otherwise the
  query has no \<open>pageCursor\<close> key at all.
\<close>

theorem listNotes_requests:
  assumes "listNotes fuel rt tr st query limit = (res, st')"
  shows "\<exists>evs. calls st' = calls st @ evs \<and>
           (\<forall>i < length evs.
              call_method (fst (evs ! i)) = ''GET'' \<and>
              call_path (fst (evs ! i)) = Some ''/notes'' \<and>
              (\<exists>q. call_query (fst (evs ! i)) = Some q \<and>
                 getProp q ''pageLimit'' =
                   JNum (Fin (of_int (min 100
                     (normalizeLimit rt limit -
                      int (length (concat (map pageItemsOf (take i evs)))))))) \<and>
                 (i = 0 \<and> truthy (getProp query ''pageCursor'') \<longrightarrow>
                    getProp q ''pageCursor'' = getProp query ''pageCursor'') \<and>
                 (i = 0 \<and> \<not> truthy (getProp query ''pageCursor'') \<longrightarrow>
                    ''pageCursor'' \<notin> fst ` set q) \<and>
                 (0 < i \<longrightarrow> truthy (cursorOf (evs ! (i - 1))) \<and>
                    getProp q ''pageCursor'' = cursorOf (evs ! (i - 1)))))"
proof -
  define N where "N = normalizeLimit rt limit"
  from assms have
    "listNotes_loop fuel rt tr query N st [] (getProp query ''pageCursor'') = (res, st')"
    unfolding listNotes_unfold N_def .
  from listNotes_loop_trace [OF this] obtain evs where
    evs: "calls st' = calls st @ evs"
      "\<forall>i < length evs.
         int (length ([] :: jsval list)) +
           int (length (concat (map pageItemsOf (take i evs)))) < N \<and>
         fst (evs ! i) =
           notesCall query N ([] @ concat (map pageItemsOf (take i evs)))
             (if i = 0 then getProp query ''pageCursor'' else cursorOf (evs ! (i - 1))) \<and>
         (0 < i \<longrightarrow> truthy (cursorOf (evs ! (i - 1))))"
    by blast
  have "call_method (fst (evs ! i)) = ''GET'' \<and>
        call_path (fst (evs ! i)) = Some ''/notes'' \<and>
        (\<exists>q. call_query (fst (evs ! i)) = Some q \<and>
           getProp q ''pageLimit'' =
             JNum (Fin (of_int (min 100
               (N - int (length (concat (map pageItemsOf (take i evs)))))))) \<and>
           (i = 0 \<and> truthy (getProp query ''pageCursor'') \<longrightarrow>
              getProp q ''pageCursor'' = getProp query ''pageCursor'') \<and>
           (i = 0 \<and> \<not> truthy (getProp query ''pageCursor'') \<longrightarrow>
              ''pageCursor'' \<notin> fst ` set q) \<and>
           (0 < i \<longrightarrow> truthy (cursorOf (evs ! (i - 1))) \<and>
              getProp q ''pageCursor'' = cursorOf (evs ! (i - 1))))"
    if i: "i < length evs" for i
  proof -
    let ?held = "if i = 0 then getProp query ''pageCursor'' else cursorOf (evs ! (i - 1))"
    let ?lim = "min MAX_PAGE_SIZE (N - int (length (concat (map pageItemsOf (take i evs)))))"
    from evs(2) [rule_format, OF i] have
      c: "fst (evs ! i) = notesCall query N (concat (map pageItemsOf (take i evs))) ?held"
      and t: "0 < i \<longrightarrow> truthy (cursorOf (evs ! (i - 1)))"
      by simp_all
    have q: "call_query (fst (evs ! i)) = Some (notesPageQuery query ?lim ?held)"
      "call_method (fst (evs ! i)) = ''GET''" "call_path (fst (evs ! i)) = Some ''/notes''"
      unfolding c notesCall_def by simp_all
    show ?thesis
      unfolding q using t
      by (auto simp: notesPageQuery_pageLimit notesPageQuery_cursor notesPageQuery_no_cursor
          MAX_PAGE_SIZE_def)
  qed
  with evs(1) show ?thesis
    unfolding N_def by blast
qed

section \<open>Runs against the demo endpoints\<close>

lemma demo_notes_items: "arrayOrEmpty (optprop (demoNotesPage w) ''data'') = replicate 100 demoItem"
  by (simp add: demoNotesPage_def)

lemma demo_notes_cursor:
  "optprop (demoNotesPage w) ''pageCursor'' = JStr (replicate (Suc w) CHR ''c'')"
  by (simp add: demoNotesPage_def)

lemma demo_notes_run:
  "listNotes (Suc (Suc (Suc 0))) demoRuntime demoNotesTransport io0 [] (JNum (Fin 250)) =
   (Some (Inr \<lparr>items = replicate 250 demoItem, count = 250, has_more = True,
               continuation = JStr ''ccc''\<rparr>),
    \<lparr>world = 3,
     calls =
       [(\<lparr>call_method = ''GET'', call_path = Some ''/notes'',
          call_query = Some [(''pageLimit'', JNum (Fin 100))],
          call_body = None, call_absoluteUrl = None\<rparr>, Inr (demoNotesPage 0)),
        (\<lparr>call_method = ''GET'', call_path = Some ''/notes'',
          call_query = Some [(''pageLimit'', JNum (Fin 100)), (''pageCursor'', JStr ''c'')],
          call_body = None, call_absoluteUrl = None\<rparr>, Inr (demoNotesPage 1)),
        (\<lparr>call_method = ''GET'', call_path = Some ''/notes'',
          call_query = Some [(''pageLimit'', JNum (Fin 50)), (''pageCursor'', JStr ''cc'')],
          call_body = None, call_absoluteUrl = None\<rparr>, Inr (demoNotesPage 2))]\<rparr>)"
  by (simp add: listNotes_def normalizeLimit_number demo_notes_apiRequest demo_notes_items
      demo_notes_cursor notesPageQuery_def MAX_PAGE_SIZE_def Let_def io0_def coalesce_def
      replicate_add [symmetric] numeral_2_eq_2)

lemma demo_productiveLinks: "productiveLinks demoRuntime demoTransport"
  unfolding productiveLinks_def by (simp add: demo_apiRequest demo_page_items)

lemma demo_productiveNotes: "productiveNotes demoRuntime demoNotesTransport"
  unfolding productiveNotes_def by (auto simp: demo_notes_apiRequest demo_notes_items)

lemma demo_alwaysPage: "alwaysPage demoRuntime demoTransport 100"
  unfolding alwaysPage_def
  by (intro allI exI [of _ demoPage] exI [of _ "''/features?pageOffset=100''"])
     (simp add: demo_apiRequest demo_page_items demo_page_next demo_resolve)

theorem walkers_quota_and_has_more_witness:
  "(1 :: int) \<le> 250 \<and> (250 :: int) \<le> 1000 \<and>
   (\<exists>r st' evs.
      listWithLinks (Suc (Suc (Suc 0))) demoRuntime demoTransport io0 ''/features'' []
        (JNum (Fin 250)) None = (Some (Inr r), st') \<and>
      calls st' = calls io0 @ evs \<and> length evs = 3 \<and>
      int (length (items r)) \<le> 250 \<and> has_more r \<and>
      truthy (nextLinkOf (last evs)) \<and> int (length (items r)) = 250) \<and>
   (\<exists>r st' evs.
      listNotes (Suc (Suc (Suc 0))) demoRuntime demoNotesTransport io0 [] (JNum (Fin 250)) =
        (Some (Inr r), st') \<and>
      calls st' = calls io0 @ evs \<and> length evs = 3 \<and>
      int (length (items r)) \<le> 250 \<and> has_more r \<and>
      truthy (cursorOf (last evs)) \<and> int (length (items r)) = 250) \<and>
   productiveLinks demoRuntime demoTransport \<and>
   fst (listWithLinks 250 demoRuntime demoTransport io0 ''/features'' [] (JNum (Fin 250)) None)
     \<noteq> None \<and>
   productiveNotes demoRuntime demoNotesTransport \<and>
   fst (listNotes 250 demoRuntime demoNotesTransport io0 [] (JNum (Fin 250))) \<noteq> None \<and>
   (\<exists>evs. calls (snd (listWithLinks (Suc (Suc 0)) demoRuntime stallingTransport io0
                        ''/features'' [] (JNum (Fin 250)) None)) = calls io0 @ evs \<and>
      length evs = Suc (Suc 0) \<and> (\<forall>ev \<in> set evs. truthy (nextLinkOf ev)))"
proof -
  have h: "(1 :: int) \<le> 250" "(250 :: int) \<le> 1000" by simp_all
  let ?stall = "listWithLinks (Suc (Suc 0)) demoRuntime stallingTransport io0 ''/features'' []
                  (JNum (Fin 250)) None"
  have "fst ?stall = None"
    by (simp add: listWithLinks_def normalizeLimit_number stalling_apiRequest stalling_page
        demo_resolve Let_def)
  then have "listWithLinks (Suc (Suc 0)) demoRuntime stallingTransport io0 ''/features'' []
               (JNum (Fin (of_int 250))) None =
             (None, snd (listWithLinks (Suc (Suc 0)) demoRuntime stallingTransport io0
                           ''/features'' [] (JNum (Fin (of_int 250))) None))"
    by (simp add: prod_eq_iff)
  from walkers_quota_and_has_more [OF h, where fuel = "Suc (Suc 0)" and rt = demoRuntime
      and tr = stallingTransport and st = io0 and path = "''/features''" and query = "[]"
      and psp = None, THEN conjunct2, THEN conjunct2, THEN conjunct2, THEN conjunct2,
      THEN conjunct1, rule_format, OF this]
  have stall: "\<exists>evs. calls (snd ?stall) = calls io0 @ evs \<and>
      length evs = Suc (Suc 0) \<and> (\<forall>ev \<in> set evs. truthy (nextLinkOf ev))"
    by simp
  have f: "nat 250 \<le> (250 :: nat)" by simp
  from walkers_quota_and_has_more [OF h, where fuel = 250 and rt = demoRuntime
      and tr = demoTransport and st = io0 and path = "''/features''" and query = "[]"
      and psp = None, THEN conjunct2, THEN conjunct2, THEN conjunct1, rule_format,
      OF conjI [OF demo_productiveLinks f]]
  have pl: "fst (listWithLinks 250 demoRuntime demoTransport io0 ''/features'' []
                  (JNum (Fin 250)) None) \<noteq> None"
    by simp
  from walkers_quota_and_has_more [OF h, where fuel = 250 and rt = demoRuntime
      and tr = demoNotesTransport and st = io0 and path = "''/features''" and query = "[]"
      and psp = None, THEN conjunct2, THEN conjunct2, THEN conjunct2, THEN conjunct1,
      rule_format, OF conjI [OF demo_productiveNotes f]]
  have pn: "fst (listNotes 250 demoRuntime demoNotesTransport io0 [] (JNum (Fin 250))) \<noteq> None"
    by simp
  note l = walkers_quota_and_has_more [OF h, where fuel = "Suc (Suc (Suc 0))"
      and rt = demoRuntime and tr = demoTransport and st = io0 and path = "''/features''"
      and query = "[]" and psp = None]
  note n = walkers_quota_and_has_more [OF h, where fuel = "Suc (Suc (Suc 0))"
      and rt = demoRuntime and tr = demoNotesTransport and st = io0 and path = "''/features''"
      and query = "[]" and psp = None]
  from l [THEN conjunct1] demo_links_run have
    "\<exists>r st' evs.
      listWithLinks (Suc (Suc (Suc 0))) demoRuntime demoTransport io0 ''/features'' []
        (JNum (Fin 250)) None = (Some (Inr r), st') \<and>
      calls st' = calls io0 @ evs \<and> length evs = 3 \<and>
      int (length (items r)) \<le> 250 \<and> has_more r \<and>
      truthy (nextLinkOf (last evs)) \<and> int (length (items r)) = 250"
    by (simp add: io0_def)
  moreover from n [THEN conjunct2, THEN conjunct1] demo_notes_run have
    "\<exists>r st' evs.
      listNotes (Suc (Suc (Suc 0))) demoRuntime demoNotesTransport io0 [] (JNum (Fin 250)) =
        (Some (Inr r), st') \<and>
      calls st' = calls io0 @ evs \<and> length evs = 3 \<and>
      int (length (items r)) \<le> 250 \<and> has_more r \<and>
      truthy (cursorOf (last evs)) \<and> int (length (items r)) = 250"
    by (simp add: io0_def)
  ultimately show ?thesis
    using h pl pn demo_productiveLinks demo_productiveNotes stall by (intro conjI)
qed

theorem listWithLinks_no_request_past_quota_witness:
  "alwaysPage demoRuntime demoTransport 100 \<and> (3 :: nat) \<le> 3 \<and>
   (\<exists>r st'. listWithLinks 3 demoRuntime demoTransport io0 ''/features'' [] (JNum (Fin 250)) None =
               (Some (Inr r), st') \<and>
      length (calls st') = length (calls io0) + 3 \<and> length (items r) = 250 \<and> has_more r) \<and>
   (\<exists>evs. calls (snd (listWithLinks (Suc (Suc (Suc 0))) demoRuntime demoTransport io0
                        ''/features'' [] (JNum (Fin 250)) None)) = calls io0 @ evs \<and>
      length evs = 3 \<and>
      (\<forall>i < length evs. int (length (concat (map pageItemsOf (take i evs)))) < 250))"
proof -
  let ?run = "listWithLinks (Suc (Suc (Suc 0))) demoRuntime demoTransport io0 ''/features'' []
                (JNum (Fin 250)) None"
  note t = listWithLinks_no_request_past_quota [where rt = demoRuntime and tr = demoTransport
      and st = io0 and path = "''/features''" and query = "[]" and psp = None]
  have three: "(3 :: nat) \<le> 3"
    by simp
  from t [where fuel = 3 and limit = JUndefined, THEN conjunct2, rule_format,
      OF conjI [OF demo_alwaysPage three]]
  have a: "\<exists>r st'. listWithLinks 3 demoRuntime demoTransport io0 ''/features'' [] (JNum (Fin 250))
                  None = (Some (Inr r), st') \<and>
      length (calls st') = length (calls io0) + 3 \<and> length (items r) = 250 \<and> has_more r" .
  have len: "length (calls (snd ?run)) = 3"
    by (simp add: demo_links_run)
  have n: "normalizeLimit demoRuntime (JNum (Fin 250)) = 250"
    by (simp add: normalizeLimit_number)
  have "?run = (fst ?run, snd ?run)"
    by simp
  from t [where fuel = "Suc (Suc (Suc 0))" and limit = "JNum (Fin 250)", THEN conjunct1,
      rule_format, OF this]
  obtain evs where
    e: "calls (snd ?run) = calls io0 @ evs"
      "\<forall>i < length evs. int (length (concat (map pageItemsOf (take i evs)))) < 250"
    unfolding n by (elim exE conjE)
  from len e(1) have "length evs = 3"
    by (simp add: io0_def)
  with e have b: "\<exists>evs. calls (snd ?run) = calls io0 @ evs \<and> length evs = 3 \<and>
      (\<forall>i < length evs. int (length (concat (map pageItemsOf (take i evs)))) < 250)"
    by (intro exI [of _ evs] conjI)
  from demo_alwaysPage three a b show ?thesis
    by (intro conjI)
qed

theorem listNotes_requests_witness:
  "\<exists>evs. calls (snd (listNotes (Suc (Suc (Suc 0))) demoRuntime demoNotesTransport io0 []
                       (JNum (Fin 250)))) = calls io0 @ evs \<and>
     length evs = 3 \<and>
     (\<forall>i < length evs.
        call_method (fst (evs ! i)) = ''GET'' \<and>
        call_path (fst (evs ! i)) = Some ''/notes'' \<and>
        (\<exists>q. call_query (fst (evs ! i)) = Some q \<and>
           getProp q ''pageLimit'' =
             JNum (Fin (of_int (min 100
               (normalizeLimit demoRuntime (JNum (Fin 250)) -
                int (length (concat (map pageItemsOf (take i evs)))))))) \<and>
           (i = 0 \<and> truthy (getProp [] ''pageCursor'') \<longrightarrow>
              getProp q ''pageCursor'' = getProp [] ''pageCursor'') \<and>
           (i = 0 \<and> \<not> truthy (getProp [] ''pageCursor'') \<longrightarrow>
              ''pageCursor'' \<notin> fst ` set q) \<and>
           (0 < i \<longrightarrow> truthy (cursorOf (evs ! (i - 1))) \<and>
              getProp q ''pageCursor'' = cursorOf (evs ! (i - 1)))))"
proof -
  let ?run = "listNotes (Suc (Suc (Suc 0))) demoRuntime demoNotesTransport io0 []
                (JNum (Fin 250))"
  have len: "length (calls (snd ?run)) = 3"
    by (simp add: demo_notes_run)
  have "?run = (fst ?run, snd ?run)"
    by simp
  from listNotes_requests [OF this] obtain evs where
    e: "calls (snd ?run) = calls io0 @ evs"
    and p: "\<forall>i < length evs.
        call_method (fst (evs ! i)) = ''GET'' \<and>
        call_path (fst (evs ! i)) = Some ''/notes'' \<and>
        (\<exists>q. call_query (fst (evs ! i)) = Some q \<and>
           getProp q ''pageLimit'' =
             JNum (Fin (of_int (min 100
               (normalizeLimit demoRuntime (JNum (Fin 250)) -
                int (length (concat (map pageItemsOf (take i evs)))))))) \<and>
           (i = 0 \<and> truthy (getProp [] ''pageCursor'') \<longrightarrow>
              getProp q ''pageCursor'' = getProp [] ''pageCursor'') \<and>
           (i = 0 \<and> \<not> truthy (getProp [] ''pageCursor'') \<longrightarrow>
              ''pageCursor'' \<notin> fst ` set q) \<and>
           (0 < i \<longrightarrow> truthy (cursorOf (evs ! (i - 1))) \<and>
              getProp q ''pageCursor'' = cursorOf (evs ! (i - 1))))"
    by (elim exE conjE)
  from len e have "length evs = 3"
    by (simp add: io0_def)
  with e p show ?thesis
    by (intro exI [of _ evs] conjI)
qed

end
